theory Spec2Isabelle
  imports Main
begin

section \<open>Events\<close>

text \<open>
  The components dispatch DOM events through the shared helper \<^verbatim>\<open>emit(element, type, options)\<close>
  and read \<^verbatim>\<open>defaultPrevented\<close> from the event it returns.
\<close>

record custom_event =
  ev_type :: string
  cancelable :: bool
  defaultPrevented :: bool

text \<open>
  Modelled from the spec: the helper \<^verbatim>\<open>emit\<close> of \<^verbatim>\<open>@mdui/shared/helpers/event.js\<close> is not
  among the sources. The spec's event surface has, for each direction, a cancelable "before"
  event and a non-cancelable "after" event; the dialog dispatches the former with the option
  \<^verbatim>\<open>{ cancelable: true }\<close> and the latter with no options at all. So an omitted option
  means a non-cancelable event, and (as for every DOM event) a listener's
  \<^verbatim>\<open>preventDefault()\<close> marks only a cancelable event as prevented.

  The first argument says for which event types some listener of the element calls
  \<^verbatim>\<open>preventDefault()\<close>; the options argument is \<open>None\<close> where the call site passes none and
  \<open>Some c\<close> for \<^verbatim>\<open>{ cancelable: c }\<close>.
\<close>

definition emit :: "(string \<Rightarrow> bool) \<Rightarrow> string \<Rightarrow> bool option \<Rightarrow> custom_event" where
  "emit listeners type options =
     (let c = (case options of None \<Rightarrow> False | Some b \<Rightarrow> b)
      in \<lparr>ev_type = type, cancelable = c, defaultPrevented = (c \<and> listeners type)\<rparr>)"

section \<open>Select: \<^verbatim>\<open>connectedCallback\<close>\<close>

text \<open>
  The property \<^verbatim>\<open>value: string | string[]\<close>; \<^verbatim>\<open>isString\<close> (imported from \<^verbatim>\<open>@mdui/jq\<close>) tells
  the two apart.
\<close>

datatype select_value = Str string | Arr "string list"

fun isString :: "select_value \<Rightarrow> bool" where
  "isString (Str _) = True"
| "isString (Arr _) = False"

record select =
  multiple :: bool
  val :: select_value
  defaultValue :: select_value

text \<open>
  \<^verbatim>\<open>this.value = this.multiple && isString(this.value)
      ? (this.value ? [this.value] : []) : this.value;
  this.defaultValue = this.multiple ? [] : '';\<close>
  A string is truthy when it is not empty.
\<close>

definition connectedCallback :: "select \<Rightarrow> select" where
  "connectedCallback s =
     (let s1 = s\<lparr>val :=
            (if multiple s \<and> isString (val s)
             then (case val s of
                     Str v \<Rightarrow> (if v \<noteq> [] then Arr [v] else Arr [])
                   | Arr vs \<Rightarrow> Arr vs)
             else val s)\<rparr>
      in s1\<lparr>defaultValue := (if multiple s1 then Arr [] else Str [])\<rparr>)"

text \<open>Whether the type of a value (array or string) agrees with the \<^verbatim>\<open>multiple\<close> flag.\<close>

definition agrees :: "bool \<Rightarrow> select_value \<Rightarrow> bool" where
  "agrees m v = (m = (\<not> isString v))"

section \<open>Bottom app bar: \<^verbatim>\<open>runScrollThreshold\<close>\<close>

record bottom_app_bar =
  hide :: bool
  fabDetach :: bool

text \<open>
  The function returns nothing; the model returns the bar and the events dispatched on it,
  in order.
  \<^verbatim>\<open>if (!isScrollingUp && !this.hide) {
    const requestHide = emit(this, 'hide');
    if (!requestHide.defaultPrevented) { this.hide = true; } }
  if (isScrollingUp && this.hide) {
    const requestShow = emit(this, 'show');
    if (!requestShow.defaultPrevented) { this.hide = false; } }\<close>
\<close>

definition runScrollThreshold ::
  "(string \<Rightarrow> bool) \<Rightarrow> bool \<Rightarrow> bottom_app_bar \<Rightarrow> bottom_app_bar \<times> custom_event list" where
  "runScrollThreshold listeners isScrollingUp b =
     (let (b1, es1) =
            (if \<not> isScrollingUp \<and> \<not> hide b
             then (let requestHide = emit listeners ''hide'' None
                   in (if \<not> defaultPrevented requestHide then b\<lparr>hide := True\<rparr> else b,
                       [requestHide]))
             else (b, []))
      in (if isScrollingUp \<and> hide b1
          then (let requestShow = emit listeners ''show'' None
                in (if \<not> defaultPrevented requestShow then b1\<lparr>hide := False\<rparr> else b1,
                    es1 @ [requestShow]))
          else (b1, es1)))"

section \<open>Fab: \<^verbatim>\<open>onExtendedChange\<close>\<close>

text \<open>
  The handler only writes two inline styles of the element. The width is \<open>None\<close> for the
  empty string and \<open>Some n\<close> for \<^verbatim>\<open>n px\<close>. The effects are listed in the order in which the
  handler performs them; \<open>Dispatch\<close> is the effect of a call of \<^verbatim>\<open>emit\<close> and \<open>Run\<close> that of a
  call of \<^verbatim>\<open>animateTo\<close> (with its duration), neither of which the handler contains.
\<close>

record fab =
  extended :: bool
  width :: "nat option"
  transitionProperty :: string

datatype fab_effect =
    StyleWidth "nat option"
  | StyleTransitionProperty string
  | Dispatch custom_event
  | Run nat

text \<open>
  \<^verbatim>\<open>const hasUpdated = this.hasUpdated;
  if (!this.extended) { this.style.width = ''; }
  else { this.style.width = `${this.scrollWidth}px`; }
  await this.updateComplete;
  if (this.extended && !hasUpdated) { await delay(); this.style.width = `${this.scrollWidth}px`; }
  if (!hasUpdated) { await delay();
    this.style.transitionProperty = 'box-shadow, width, bottom, transform'; }\<close>
  \<open>hasUpd\<close> is the captured \<^verbatim>\<open>hasUpdated\<close>; \<open>sw1\<close> and \<open>sw2\<close> are the values of
  \<^verbatim>\<open>scrollWidth\<close> at its two reads. The awaits are the places where the handler is suspended;
  nothing else writes these styles.
\<close>

definition onExtendedChange :: "bool \<Rightarrow> nat \<Rightarrow> nat \<Rightarrow> fab \<Rightarrow> fab \<times> fab_effect list" where
  "onExtendedChange hasUpd sw1 sw2 f =
     (let (f1, t1) =
            (if \<not> extended f then (f\<lparr>width := None\<rparr>, [StyleWidth None])
             else (f\<lparr>width := Some sw1\<rparr>, [StyleWidth (Some sw1)]));
          (f2, t2) =
            (if extended f1 \<and> \<not> hasUpd
             then (f1\<lparr>width := Some sw2\<rparr>, t1 @ [StyleWidth (Some sw2)])
             else (f1, t1))
      in (if \<not> hasUpd
          then (f2\<lparr>transitionProperty := ''box-shadow, width, bottom, transform''\<rparr>,
                t2 @ [StyleTransitionProperty ''box-shadow, width, bottom, transform''])
          else (f2, t2)))"

section \<open>Dialog: the world the handlers run in\<close>

text \<open>
  \<^verbatim>\<open>onOpenChange\<close> is an \<^verbatim>\<open>async\<close> method: it runs up to an \<^verbatim>\<open>await\<close>, is suspended, and is resumed
  later by the event loop, while other handlers, of the same dialog or of another one, may run
  in between. The model keeps the document's state in a record, every suspended call as a
  task with its captured locals and the place where it waits, and the event loop as a step
  function over labels; a schedule is a list of labels.
\<close>

type_synonym did = nat

text \<open>
  The nodes a dialog animates: \<^verbatim>\<open>overlayRef\<close>, \<^verbatim>\<open>panelRef\<close>, and the elements of
  \<^verbatim>\<open>panel.querySelectorAll('.header, .body, .actions')\<close>.
\<close>

datatype part = Overlay | Panel | Child nat

type_synonym node = "did \<times> part"

text \<open>
  The elements that take the focus: an element outside the dialogs, the panel of a dialog, the
  \<^verbatim>\<open>[autofocus]\<close> descendant of a dialog.
\<close>

datatype elem = Outside nat | PanelOf did | AutoFocusOf did

text \<open>
  A running keyframe effect: its target, the task (call of \<^verbatim>\<open>onOpenChange\<close>) that started it,
  a name for its keyframes, its duration and its easing. The effects started by one task are
  one Animation Run.
\<close>

record animation =
  target :: node
  owner :: nat
  effect :: string
  duration :: nat
  easing :: string

text \<open>
  Callbacks handed to \<^verbatim>\<open>requestAnimationFrame\<close> (focus the dialog, lines 254 to 263) and to
  \<^verbatim>\<open>setTimeout\<close> (focus the trigger, line 361).
\<close>

datatype callback = FocusDialog did | FocusTrigger elem

text \<open>Everything a handler or the platform does that can be observed, in order.\<close>

datatype action =
    Emit did custom_event
  | SetDisplay did string
  | SetScrollTarget did
  | SetMarginTop did string
  | Activate did
  | Deactivate did
  | LockScreen did
  | UnlockScreen did
  | Cancel animation
  | Animate animation
  | Finished animation
  | Focus elem

text \<open>
  The fields of a dialog that \<^verbatim>\<open>onOpenChange\<close> reads or writes. \<open>body\<close> says whether the body is
  rendered, that is whether \<^verbatim>\<open>bodyRef.value\<close> is an element: \<^verbatim>\<open>render\<close> makes the body only
  \<^verbatim>\<open>when(hasBody, ...)\<close>, with a description or a default slot (lines 397 and 424 to 431).
  \<open>topAppBarElements\<close> holds, for each slotted top app bar, whether its \<^verbatim>\<open>scrollTarget\<close> is set;
  \<open>modalActive\<close> is the state of \<^verbatim>\<open>modalHelper\<close>; \<open>autofocus\<close> says whether
  \<^verbatim>\<open>querySelector('[autofocus]')\<close> finds an element.
\<close>

record dialog =
  "open" :: bool
  hasUpdated :: bool
  display :: string
  body :: bool
  bodyMarginTop :: string
  topAppBarElements :: "bool list"
  originalTrigger :: "elem option"
  modalActive :: bool
  children :: "part list"
  autofocus :: bool

text \<open>What a call of the handler can throw: the \<^verbatim>\<open>TypeError\<close> of a property access on \<^verbatim>\<open>undefined\<close>.\<close>

datatype error = TypeError

text \<open>
  The awaits of \<^verbatim>\<open>onOpenChange\<close>: \<^verbatim>\<open>whenDefined()\<close> (line 195), \<^verbatim>\<open>updateComplete\<close> (line 198),
  \<^verbatim>\<open>stopAnimation()\<close> of the open branch (line 251) and of the close branch (line 324), the
  \<^verbatim>\<open>Promise.all\<close> of the open run (line 267) and of the close run (line 328). A call that is over
  has returned or has thrown; as the method is \<^verbatim>\<open>async\<close>, an error rejects its promise and stops
  nothing else.
\<close>

datatype pc = AwaitDefined | AwaitUpdateComplete | AwaitStopOpen | AwaitStopClose
  | AwaitOpenRun | AwaitCloseRun | Returned | Rejected error

record task =
  t_dialog :: did
  t_hasUpdated :: bool
  t_children :: "part list"
  t_pc :: pc

text \<open>
  \<open>scrollLock\<close> is the global scroll-lock counter, \<open>prevents d t\<close> says whether a listener of
  dialog \<open>d\<close> calls \<^verbatim>\<open>preventDefault()\<close> on events of type \<open>t\<close>, \<open>getDuration\<close> is the table of
  motion tokens (a parameter: the table is not among the sources), \<open>hasFocusFn e\<close> says whether
  \<^verbatim>\<open>typeof e.focus === 'function'\<close>, \<open>animations\<close> are the running effects, \<open>timers\<close> the pending
  callbacks and \<open>log\<close> the actions so far. The index of a task in \<open>tasks\<close> is its identity.
\<close>

record world =
  dialogs :: "did \<Rightarrow> dialog"
  scrollLock :: int
  activeElement :: "elem option"
  hasFocusFn :: "elem \<Rightarrow> bool"
  prevents :: "did \<Rightarrow> string \<Rightarrow> bool"
  getDuration :: "string \<Rightarrow> nat"
  animations :: "animation list"
  tasks :: "task list"
  timers :: "callback list"
  log :: "action list"

definition logs :: "action \<Rightarrow> world \<Rightarrow> world" where
  "logs a w = w\<lparr>log := log w @ [a]\<rparr>"

definition set_dialog :: "did \<Rightarrow> (dialog \<Rightarrow> dialog) \<Rightarrow> world \<Rightarrow> world" where
  "set_dialog d f w = w\<lparr>dialogs := (dialogs w)(d := f (dialogs w d))\<rparr>"

definition set_pc :: "nat \<Rightarrow> pc \<Rightarrow> world \<Rightarrow> world" where
  "set_pc i p w = w\<lparr>tasks := (tasks w)[i := (tasks w ! i)\<lparr>t_pc := p\<rparr>]\<rparr>"

text \<open>\<^verbatim>\<open>emit(this, type, options)\<close> on dialog \<open>d\<close>; the listeners only decide about \<^verbatim>\<open>preventDefault()\<close>.\<close>

definition dispatch :: "did \<Rightarrow> string \<Rightarrow> bool option \<Rightarrow> world \<Rightarrow> world" where
  "dispatch d type options w = logs (Emit d (emit (prevents w d) type options)) w"

text \<open>
  Modelled from the spec: \<^verbatim>\<open>lockScreen\<close> and \<^verbatim>\<open>unlockScreen\<close> of
  \<^verbatim>\<open>@mdui/shared/helpers/scroll.js\<close> are not among the sources. The spec: "a global scroll lock
  counter is incremented on open and decremented on close, shared across all widgets that lock
  document scrolling (scrolling stays locked while count > 0)".
\<close>

definition lockScreen :: "did \<Rightarrow> world \<Rightarrow> world" where
  "lockScreen d w = logs (LockScreen d) (w\<lparr>scrollLock := scrollLock w + 1\<rparr>)"

definition unlockScreen :: "did \<Rightarrow> world \<Rightarrow> world" where
  "unlockScreen d w = logs (UnlockScreen d) (w\<lparr>scrollLock := scrollLock w - 1\<rparr>)"

definition locked :: "world \<Rightarrow> bool" where
  "locked w = (scrollLock w > 0)"

text \<open>
  Modelled from the spec: \<^verbatim>\<open>animateTo\<close> and \<^verbatim>\<open>stopAnimations\<close> of
  \<^verbatim>\<open>@mdui/shared/helpers/animate.js\<close> are not among the sources. The spec: the runner "accepts
  target node + keyframe list + options and returns a cancelable completion handle"; "the
  returned completion signal fires after every effect in the set has either finished or been
  canceled"; the cancellation operation "immediately halts all currently associated effects on
  a given target", and "canceling an Animation Run is synchronous and immediate".

  So \<open>animateTo\<close> adds a running effect owned by the calling task, \<open>stopAnimations\<close> removes every
  running effect of an element at once, and the \<^verbatim>\<open>Promise.all\<close> of a run is settled when no
  effect of the task is running any more, whether it finished or was cancelled.
\<close>

definition animateTo :: "nat \<Rightarrow> node \<Rightarrow> string \<Rightarrow> nat \<Rightarrow> string \<Rightarrow> world \<Rightarrow> world" where
  "animateTo i el keyframes dur eas w =
     (let a = \<lparr>target = el, owner = i, effect = keyframes, duration = dur, easing = eas\<rparr>
      in w\<lparr>animations := animations w @ [a], log := log w @ [Animate a]\<rparr>)"

definition stopAnimations :: "node \<Rightarrow> world \<Rightarrow> world" where
  "stopAnimations el w =
     w\<lparr>animations := filter (\<lambda>a. target a \<noteq> el) (animations w),
       log := log w @ map Cancel (filter (\<lambda>a. target a = el) (animations w))\<rparr>"

definition settled :: "nat \<Rightarrow> world \<Rightarrow> bool" where
  "settled i w = list_all (\<lambda>a. owner a \<noteq> i) (animations w)"

definition focus :: "elem \<Rightarrow> world \<Rightarrow> world" where
  "focus e w = logs (Focus e) (w\<lparr>activeElement := Some e\<rparr>)"

section \<open>Dialog: \<^verbatim>\<open>onOpenChange\<close>\<close>

text \<open>
  Lines 212 to 217, the closure
  \<^verbatim>\<open>stopAnimation = () => Promise.all([stopAnimations(overlay), stopAnimations(panel),
      ...children.map((child) => stopAnimations(child))])\<close>.
\<close>

definition stopAnimation :: "did \<Rightarrow> part list \<Rightarrow> world \<Rightarrow> world" where
  "stopAnimation d cs w =
     fold (\<lambda>c. stopAnimations (d, c)) cs (stopAnimations (d, Panel) (stopAnimations (d, Overlay) w))"

text \<open>
  Lines 233 to 245:
  \<^verbatim>\<open>const topAppBarElements = this.topAppBarElements ?? [];
  if (topAppBarElements.length) {
    const topAppBarElement = topAppBarElements[0];
    if (!topAppBarElement.scrollTarget) { topAppBarElement.scrollTarget = this.bodyRef.value; }
    this.bodyRef.value!.style.marginTop = '0'; }\<close>
  When the body is not rendered, \<^verbatim>\<open>this.bodyRef.value\<close> is \<^verbatim>\<open>undefined\<close>: the assignment of line
  240 then leaves the scroll target unset, and line 244 throws (the \<^verbatim>\<open>!\<close> is erased by the
  compiler). The error comes with the state at the throw.
\<close>

definition adoptTopAppBar :: "did \<Rightarrow> world \<Rightarrow> error \<times> world + world" where
  "adoptTopAppBar d w =
     (case topAppBarElements (dialogs w d) of
        [] \<Rightarrow> Inr w
      | scrollTarget # rest \<Rightarrow>
          (let w1 = (if \<not> scrollTarget
                     then logs (SetScrollTarget d)
                            (set_dialog d (\<lambda>x. x\<lparr>topAppBarElements := body x # rest\<rparr>) w)
                     else w)
           in if body (dialogs w1 d)
              then Inr (logs (SetMarginTop d ''0'')
                          (set_dialog d (\<lambda>x. x\<lparr>bodyMarginTop := ''0''\<rparr>) w1))
              else Inl (TypeError, w1)))"

text \<open>
  Lines 188 to 195, the call itself up to the first await:
  \<^verbatim>\<open>const hasUpdated = this.hasUpdated;
  if (!this.open && !hasUpdated) { return; }
  await this.definedController.whenDefined();\<close>
  The call becomes a new task, the last of \<open>tasks\<close>.
\<close>

definition onOpenChange :: "did \<Rightarrow> world \<Rightarrow> world" where
  "onOpenChange d w =
     (let hasUpd = hasUpdated (dialogs w d)
      in if \<not> open (dialogs w d) \<and> \<not> hasUpd
         then w\<lparr>tasks := tasks w @
                [\<lparr>t_dialog = d, t_hasUpdated = hasUpd, t_children = [], t_pc = Returned\<rparr>]\<rparr>
         else w\<lparr>tasks := tasks w @
                [\<lparr>t_dialog = d, t_hasUpdated = hasUpd, t_children = [], t_pc = AwaitDefined\<rparr>]\<rparr>)"

text \<open>
  Lines 221 to 251, the open branch up to \<^verbatim>\<open>await stopAnimation()\<close>:
  \<^verbatim>\<open>if (hasUpdated) {
    const requestOpen = emit(this, 'open', { cancelable: true });
    if (requestOpen.defaultPrevented) { return; } }
  this.style.display = 'flex';
  ... (top app bar)
  this.originalTrigger = document.activeElement as HTMLElement;
  this.modalHelper.activate();
  lockScreen(this);
  await stopAnimation();\<close>
  When the lines about the top app bar throw, the call is over: the event has been dispatched,
  the display set and the scroll target assigned, and nothing of what follows line 244 happens.
\<close>

definition open_request :: "nat \<Rightarrow> did \<Rightarrow> bool \<Rightarrow> part list \<Rightarrow> world \<Rightarrow> world" where
  "open_request i d hasUpd cs w =
     (if hasUpd \<and> defaultPrevented (emit (prevents w d) ''open'' (Some True))
      then set_pc i Returned (dispatch d ''open'' (Some True) w)
      else
        (let w1 = (if hasUpd then dispatch d ''open'' (Some True) w else w);
             w2 = logs (SetDisplay d ''flex'') (set_dialog d (\<lambda>x. x\<lparr>display := ''flex''\<rparr>) w1)
         in case adoptTopAppBar d w2 of
              Inl (err, w3) \<Rightarrow> set_pc i (Rejected err) w3
            | Inr w3 \<Rightarrow>
                (let w4 = set_dialog d (\<lambda>x. x\<lparr>originalTrigger := activeElement w3\<rparr>) w3;
                     w5 = logs (Activate d) (set_dialog d (\<lambda>x. x\<lparr>modalActive := True\<rparr>) w4);
                     w6 = lockScreen d w5;
                     w7 = stopAnimation d cs w6
                 in set_pc i AwaitStopOpen w7)))"

text \<open>
  Lines 316 to 324, the close branch up to \<^verbatim>\<open>await stopAnimation()\<close>:
  \<^verbatim>\<open>const requestClose = emit(this, 'close', { cancelable: true });
  if (requestClose.defaultPrevented) { return; }
  this.modalHelper.deactivate();
  await stopAnimation();\<close>
\<close>

definition close_request :: "nat \<Rightarrow> did \<Rightarrow> part list \<Rightarrow> world \<Rightarrow> world" where
  "close_request i d cs w =
     (let requestClose = emit (prevents w d) ''close'' (Some True);
          w1 = dispatch d ''close'' (Some True) w
      in if defaultPrevented requestClose
         then set_pc i Returned w1
         else
           (let w2 = logs (Deactivate d) (set_dialog d (\<lambda>x. x\<lparr>modalActive := False\<rparr>) w1);
                w3 = stopAnimation d cs w2
            in set_pc i AwaitStopClose w3))"

text \<open>
  Lines 202 to 221 and 315: the children are read, then \<^verbatim>\<open>this.open\<close> is read again (it is not
  captured at the call) and chooses the branch.
\<close>

definition onOpenChange_body :: "nat \<Rightarrow> world \<Rightarrow> world" where
  "onOpenChange_body i w =
     (let t = tasks w ! i;
          d = t_dialog t;
          cs = children (dialogs w d);
          w0 = w\<lparr>tasks := (tasks w)[i := t\<lparr>t_children := cs\<rparr>]\<rparr>
      in if open (dialogs w d)
         then open_request i d (t_hasUpdated t) cs w0
         else close_request i d cs w0)"

text \<open>
  Lines 254 to 310: the focus is requested for the next animation frame, then the open run
  starts, every effect with \<^verbatim>\<open>duration: hasUpdated ? duration : 0\<close>.
\<close>

definition open_run :: "nat \<Rightarrow> world \<Rightarrow> world" where
  "open_run i w =
     (let t = tasks w ! i;
          d = t_dialog t;
          w1 = w\<lparr>timers := timers w @ [FocusDialog d]\<rparr>;
          dur = (if t_hasUpdated t then getDuration w ''medium4'' else 0);
          w2 = animateTo i (d, Overlay) ''opacity 0 1@0.3 1'' dur ''linear'' w1;
          w3 = animateTo i (d, Panel) ''transform'' dur ''emphasized-decelerate'' w2;
          w4 = animateTo i (d, Panel) ''opacity 0 1@0.1 1'' dur ''linear'' w3;
          w5 = fold (\<lambda>c. animateTo i (d, c) ''opacity 0 0@0.2 1@0.8 1'' dur ''linear'')
                 (t_children t) w4
      in set_pc i AwaitOpenRun w5)"

text \<open>Lines 312 to 314: \<^verbatim>\<open>if (hasUpdated) { emit(this, 'opened'); }\<close>\<close>

definition open_done :: "nat \<Rightarrow> world \<Rightarrow> world" where
  "open_done i w =
     (let t = tasks w ! i;
          w1 = (if t_hasUpdated t then dispatch (t_dialog t) ''opened'' None w else w)
      in set_pc i Returned w1)"

text \<open>Lines 326 to 353: the close run, every effect with the duration of \<^verbatim>\<open>short4\<close>.\<close>

definition close_run :: "nat \<Rightarrow> world \<Rightarrow> world" where
  "close_run i w =
     (let t = tasks w ! i;
          d = t_dialog t;
          dur = getDuration w ''short4'';
          w1 = animateTo i (d, Overlay) ''opacity 1 0'' dur ''linear'' w;
          w2 = animateTo i (d, Panel) ''transform'' dur ''emphasized-accelerate'' w1;
          w3 = animateTo i (d, Panel) ''opacity 1 1@0.75 0'' dur ''linear'' w2;
          w4 = fold (\<lambda>c. animateTo i (d, c) ''opacity 1 0@0.75 0'' dur ''linear'')
                 (t_children t) w3
      in set_pc i AwaitCloseRun w4)"

text \<open>
  Lines 355 to 364:
  \<^verbatim>\<open>this.style.display = 'none';
  unlockScreen(this);
  const trigger = this.originalTrigger;
  if (typeof trigger?.focus === 'function') { setTimeout(() => trigger.focus()); }
  emit(this, 'closed');\<close>
\<close>

definition close_done :: "nat \<Rightarrow> world \<Rightarrow> world" where
  "close_done i w =
     (let t = tasks w ! i;
          d = t_dialog t;
          w1 = logs (SetDisplay d ''none'') (set_dialog d (\<lambda>x. x\<lparr>display := ''none''\<rparr>) w);
          w2 = unlockScreen d w1;
          w3 = (case originalTrigger (dialogs w2 d) of
                  None \<Rightarrow> w2
                | Some trigger \<Rightarrow>
                    (if hasFocusFn w2 trigger
                     then w2\<lparr>timers := timers w2 @ [FocusTrigger trigger]\<rparr>
                     else w2));
          w4 = dispatch d ''closed'' None w3
      in set_pc i Returned w4)"

text \<open>
  Resuming task \<open>i\<close> at its await.

  Modelled from the spec: the awaited helpers (\<^verbatim>\<open>DefinedController.whenDefined\<close>,
  \<^verbatim>\<open>stopAnimations\<close>, \<^verbatim>\<open>animateTo\<close>) and the rendering layer's \<^verbatim>\<open>updateComplete\<close> are not among
  the sources. The spec: "Suspension occurs only at well-defined points: awaiting the Animation
  Run's completion, awaiting a microtask tick, and awaiting a deferred initialization signal
  (waiting for custom element upgrade of related nested elements)". So \<^verbatim>\<open>whenDefined()\<close> and
  \<^verbatim>\<open>stopAnimation()\<close> may be left at any later moment, \<^verbatim>\<open>updateComplete\<close> once the first update
  is over, and the \<^verbatim>\<open>Promise.all\<close> of a run once the run is settled. \<open>None\<close>: the task cannot be
  resumed now.
\<close>

definition resume :: "nat \<Rightarrow> world \<Rightarrow> world option" where
  "resume i w =
     (if i < length (tasks w)
      then (let t = tasks w ! i in
            case t_pc t of
              AwaitDefined \<Rightarrow>
                (if \<not> t_hasUpdated t then Some (set_pc i AwaitUpdateComplete w)
                 else Some (onOpenChange_body i w))
            | AwaitUpdateComplete \<Rightarrow>
                (if hasUpdated (dialogs w (t_dialog t)) then Some (onOpenChange_body i w) else None)
            | AwaitStopOpen \<Rightarrow> Some (open_run i w)
            | AwaitOpenRun \<Rightarrow> (if settled i w then Some (open_done i w) else None)
            | AwaitStopClose \<Rightarrow> Some (close_run i w)
            | AwaitCloseRun \<Rightarrow> (if settled i w then Some (close_done i w) else None)
            | Returned \<Rightarrow> None
            | Rejected err \<Rightarrow> None)
      else None)"

text \<open>Lines 368 to 371: \<^verbatim>\<open>super.disconnectedCallback(); unlockScreen(this);\<close>\<close>

definition disconnectedCallback :: "did \<Rightarrow> world \<Rightarrow> world" where
  "disconnectedCallback d w = unlockScreen d w"

text \<open>
  The callbacks: lines 254 to 263 focus the \<^verbatim>\<open>[autofocus]\<close> element if there is one and the
  panel otherwise; line 361 focuses the trigger.
\<close>

definition run_callback :: "callback \<Rightarrow> world \<Rightarrow> world" where
  "run_callback c w =
     (case c of
        FocusDialog d \<Rightarrow>
          (if autofocus (dialogs w d) then focus (AutoFocusOf d) w else focus (PanelOf d) w)
      | FocusTrigger trigger \<Rightarrow> focus trigger w)"

section \<open>Dialog: the event loop\<close>

text \<open>
  Modelled from the spec: the decorator \<^verbatim>\<open>@watch('open')\<close> of
  \<^verbatim>\<open>@mdui/shared/decorators/watch.js\<close> and the update cycle of the rendering layer are not among
  the sources. The spec: the Visibility Controller runs its protocol "on each flag
  transition", the first render included (where it is "never animated, never notified"), and
  the element has an "already rendered once" flag.

  \<^item> \<open>FirstUpdate d\<close>: the first update of dialog \<open>d\<close>; the handler is called with
    \<^verbatim>\<open>hasUpdated\<close> still false, then the flag is set.
  \<^item> \<open>SetOpen d v\<close>: \<^verbatim>\<open>d.open = v\<close>; after the first update a change of the value calls the
    handler, before it the write only sets the flag.
  \<^item> \<open>Resume i\<close>: task \<open>i\<close> continues after its await.
  \<^item> \<open>Settle i\<close>: the platform finishes the running effects of the run of task \<open>i\<close>.
  \<^item> \<open>Timer k\<close>: the pending callback number \<open>k\<close> runs.
  \<^item> \<open>Disconnect d\<close>: dialog \<open>d\<close> is removed from the document.
\<close>

datatype label = FirstUpdate did | SetOpen did bool | Resume nat | Settle nat | Timer nat
  | Disconnect did

definition step :: "label \<Rightarrow> world \<Rightarrow> world option" where
  "step l w =
     (case l of
        FirstUpdate d \<Rightarrow>
          (if hasUpdated (dialogs w d) then None
           else Some (set_dialog d (\<lambda>x. x\<lparr>hasUpdated := True\<rparr>) (onOpenChange d w)))
      | SetOpen d v \<Rightarrow>
          (if open (dialogs w d) = v then Some w
           else (let w1 = set_dialog d (\<lambda>x. x\<lparr>open := v\<rparr>) w
                 in if hasUpdated (dialogs w d) then Some (onOpenChange d w1) else Some w1))
      | Resume i \<Rightarrow> resume i w
      | Settle i \<Rightarrow>
          Some (w\<lparr>animations := filter (\<lambda>a. owner a \<noteq> i) (animations w),
                  log := log w @ map Finished (filter (\<lambda>a. owner a = i) (animations w))\<rparr>)
      | Timer k \<Rightarrow>
          (if k < length (timers w)
           then Some (run_callback (timers w ! k)
                        (w\<lparr>timers := take k (timers w) @ drop (Suc k) (timers w)\<rparr>))
           else None)
      | Disconnect d \<Rightarrow> Some (disconnectedCallback d w))"

fun run :: "label list \<Rightarrow> world \<Rightarrow> world option" where
  "run [] w = Some w"
| "run (l # ls) w = (case step l w of None \<Rightarrow> None | Some w1 \<Rightarrow> run ls w1)"

section \<open>Notions used to state the properties\<close>

text \<open>No effect is running on a node of dialog \<open>d\<close>.\<close>

definition quiet :: "did \<Rightarrow> world \<Rightarrow> bool" where
  "quiet d w = list_all (\<lambda>a. fst (target a) \<noteq> d) (animations w)"

text \<open>Every running effect belongs to an existing task.\<close>

definition owned :: "world \<Rightarrow> bool" where
  "owned w = list_all (\<lambda>a. owner a < length (tasks w)) (animations w)"

text \<open>The nodes that \<open>stopAnimation\<close> visits, in its order.\<close>

definition nodes :: "did \<Rightarrow> part list \<Rightarrow> node list" where
  "nodes d cs = (d, Overlay) # (d, Panel) # map (Pair d) cs"

text \<open>The effects that stopping the given nodes one after the other cancels, in that order.\<close>

fun cancelled :: "node list \<Rightarrow> animation list \<Rightarrow> animation list" where
  "cancelled [] as = []"
| "cancelled (el # els) as =
     filter (\<lambda>a. target a = el) as @ cancelled els (filter (\<lambda>a. target a \<noteq> el) as)"

text \<open>The effects of the open run and of the close run of task \<open>i\<close> on dialog \<open>d\<close>.\<close>

definition effects :: "nat \<Rightarrow> did \<Rightarrow> nat \<Rightarrow> string \<Rightarrow> part list \<Rightarrow> animation list" where
  "effects i d dur kf cs =
     map (\<lambda>c. \<lparr>target = (d, c), owner = i, effect = kf, duration = dur, easing = ''linear''\<rparr>) cs"

definition open_effects :: "nat \<Rightarrow> did \<Rightarrow> nat \<Rightarrow> part list \<Rightarrow> animation list" where
  "open_effects i d dur cs =
     [\<lparr>target = (d, Overlay), owner = i, effect = ''opacity 0 1@0.3 1'', duration = dur,
        easing = ''linear''\<rparr>,
      \<lparr>target = (d, Panel), owner = i, effect = ''transform'', duration = dur,
        easing = ''emphasized-decelerate''\<rparr>,
      \<lparr>target = (d, Panel), owner = i, effect = ''opacity 0 1@0.1 1'', duration = dur,
        easing = ''linear''\<rparr>]
     @ effects i d dur ''opacity 0 0@0.2 1@0.8 1'' cs"

definition close_effects :: "nat \<Rightarrow> did \<Rightarrow> nat \<Rightarrow> part list \<Rightarrow> animation list" where
  "close_effects i d dur cs =
     [\<lparr>target = (d, Overlay), owner = i, effect = ''opacity 1 0'', duration = dur,
        easing = ''linear''\<rparr>,
      \<lparr>target = (d, Panel), owner = i, effect = ''transform'', duration = dur,
        easing = ''emphasized-accelerate''\<rparr>,
      \<lparr>target = (d, Panel), owner = i, effect = ''opacity 1 1@0.75 0'', duration = dur,
        easing = ''linear''\<rparr>]
     @ effects i d dur ''opacity 1 0@0.75 0'' cs"

definition open_duration :: "world \<Rightarrow> task \<Rightarrow> nat" where
  "open_duration w t = (if t_hasUpdated t then getDuration w ''medium4'' else 0)"

text \<open>
  The lines about the top app bar find the body they write to: no top app bar is slotted, or
  the body is rendered. Otherwise line 244 throws.
\<close>

definition bar_has_body :: "dialog \<Rightarrow> bool" where
  "bar_has_body x = (topAppBarElements x = [] \<or> body x)"

text \<open>What the lines about the top app bar leave behind.\<close>

definition topAppBar_list :: "bool list \<Rightarrow> bool list" where
  "topAppBar_list ts = (case ts of [] \<Rightarrow> [] | _ # rest \<Rightarrow> True # rest)"

definition topAppBar_margin :: "bool list \<Rightarrow> string \<Rightarrow> string" where
  "topAppBar_margin ts m = (case ts of [] \<Rightarrow> m | _ # rest \<Rightarrow> ''0'')"

definition topAppBar_log :: "did \<Rightarrow> bool list \<Rightarrow> action list" where
  "topAppBar_log d ts =
     (case ts of [] \<Rightarrow> []
      | st # _ \<Rightarrow> (if st then [] else [SetScrollTarget d]) @ [SetMarginTop d ''0''])"

text \<open>What they log before they throw, when the body is missing.\<close>

definition topAppBar_thrown :: "did \<Rightarrow> bool list \<Rightarrow> action list" where
  "topAppBar_thrown d ts =
     (case ts of [] \<Rightarrow> [] | st # _ \<Rightarrow> (if st then [] else [SetScrollTarget d]))"

text \<open>The dialog once the open branch has applied the open state, with trigger \<open>e\<close>.\<close>

definition shown :: "dialog \<Rightarrow> elem option \<Rightarrow> dialog" where
  "shown x e = x\<lparr>display := ''flex'',
       topAppBarElements := topAppBar_list (topAppBarElements x),
       bodyMarginTop := topAppBar_margin (topAppBarElements x) (bodyMarginTop x),
       originalTrigger := e, modalActive := True\<rparr>"

text \<open>The element that the dialog focuses when it opens.\<close>

definition dialog_focus :: "did \<Rightarrow> bool \<Rightarrow> elem" where
  "dialog_focus d af = (if af then AutoFocusOf d else PanelOf d)"

text \<open>The callback that the close branch schedules to give the focus back.\<close>

definition restore :: "(elem \<Rightarrow> bool) \<Rightarrow> elem option \<Rightarrow> callback list" where
  "restore focusable trigger =
     (case trigger of None \<Rightarrow> []
      | Some e \<Rightarrow> (if focusable e then [FocusTrigger e] else []))"

text \<open>
  Task \<open>i\<close> waits just before the body of the handler (line 202) and can enter it: after
  \<^verbatim>\<open>whenDefined()\<close> when the call was made after the first update, after \<^verbatim>\<open>updateComplete\<close>
  otherwise.
\<close>

definition at_body :: "world \<Rightarrow> nat \<Rightarrow> bool" where
  "at_body w i =
     (i < length (tasks w) \<and>
      (t_pc (tasks w ! i) = AwaitDefined \<and> t_hasUpdated (tasks w ! i)
       \<or> t_pc (tasks w ! i) = AwaitUpdateComplete \<and> hasUpdated (dialogs w (t_dialog (tasks w ! i)))))"

text \<open>The types of the events dispatched on dialog \<open>d\<close>, in order.\<close>

fun event_of :: "did \<Rightarrow> action \<Rightarrow> string list" where
  "event_of d (Emit d' e) = (if d' = d then [ev_type e] else [])"
| "event_of d _ = []"

definition emitted :: "did \<Rightarrow> action list \<Rightarrow> string list" where
  "emitted d as = concat (map (event_of d) as)"

text \<open>The events and the focus changes of a log.\<close>

fun is_notice :: "action \<Rightarrow> bool" where
  "is_notice (Emit _ _) = True"
| "is_notice (Focus _) = True"
| "is_notice _ = False"

definition notices :: "world \<Rightarrow> action list" where
  "notices w = filter is_notice (log w)"

text \<open>
  An action that is neither an event on dialog \<open>d\<close> nor the start of an effect of non-zero
  duration on one of its nodes.
\<close>

fun silent :: "did \<Rightarrow> action \<Rightarrow> bool" where
  "silent d (Emit d' e) = (d' \<noteq> d)"
| "silent d (Animate a) = (fst (target a) \<noteq> d \<or> duration a = 0)"
| "silent d _ = True"

text \<open>
  Dialog \<open>d\<close> is in its first render with the flag set: every call of its handler so far was
  made before the first update was over, and none is in the close branch.
\<close>

definition first_call :: "did \<Rightarrow> task \<Rightarrow> bool" where
  "first_call d t =
     (t_dialog t \<noteq> d \<or>
      \<not> t_hasUpdated t \<and> t_pc t \<noteq> AwaitStopClose \<and> t_pc t \<noteq> AwaitCloseRun)"

definition first_render :: "did \<Rightarrow> world \<Rightarrow> bool" where
  "first_render d w = (open (dialogs w d) \<and> list_all (first_call d) (tasks w))"

fun writes_open :: "did \<Rightarrow> label \<Rightarrow> bool" where
  "writes_open d (SetOpen d' v) = (d' = d)"
| "writes_open d _ = False"

text \<open>The actions from \<open>w\<close> to \<open>w'\<close> are silent for dialog \<open>d\<close>.\<close>

definition quietly :: "did \<Rightarrow> world \<Rightarrow> world \<Rightarrow> bool" where
  "quietly d w w' = (\<exists>new. log w' = log w @ new \<and> list_all (silent d) new)"

text \<open>Two running effects of different runs have the same target.\<close>

definition overlapping :: "animation list \<Rightarrow> bool" where
  "overlapping as = list_ex (\<lambda>a. list_ex (\<lambda>b. target a = target b \<and> owner a \<noteq> owner b) as) as"

text \<open>
  The schedules of an undisturbed transition. Opening: the flag is set, the handler passes
  \<^verbatim>\<open>whenDefined()\<close> and \<^verbatim>\<open>stopAnimation()\<close>, the animation frame focuses the dialog, the run
  finishes, the handler ends. Closing: the same without the frame.
\<close>

definition open_sched :: "did \<Rightarrow> nat \<Rightarrow> nat \<Rightarrow> label list" where
  "open_sched d i k = [SetOpen d True, Resume i, Resume i, Timer k, Settle i, Resume i]"

definition close_sched :: "did \<Rightarrow> nat \<Rightarrow> label list" where
  "close_sched d i = [SetOpen d False, Resume i, Resume i, Settle i, Resume i]"

text \<open>The first render of a dialog whose flag is set.\<close>

definition render_sched :: "did \<Rightarrow> nat \<Rightarrow> nat \<Rightarrow> label list" where
  "render_sched d i k = [FirstUpdate d, Resume i, Resume i, Resume i, Timer k, Settle i, Resume i]"

text \<open>
  The flag is set and cleared again while the open run is in flight; afterwards the open
  handler (task \<open>i\<close>) is resumed after \<open>k\<close> of the three remaining steps of the close handler.
\<close>

definition toggle_sched :: "did \<Rightarrow> nat \<Rightarrow> nat \<Rightarrow> label list" where
  "toggle_sched d i k =
     [SetOpen d True, Resume i, Resume i, SetOpen d False, Resume (Suc i)]
     @ take k [Resume (Suc i), Settle (Suc i), Resume (Suc i)]
     @ [Resume i]
     @ drop k [Resume (Suc i), Settle (Suc i), Resume (Suc i)]"

text \<open>
  A document for the examples: every dialog is rendered and closed, has a body, two children
  and no top app bar; the element \<open>Outside 7\<close> has the focus; no listener prevents anything.
\<close>

definition dialog0 :: dialog where
  "dialog0 = \<lparr>open = False, hasUpdated = True, display = [], body = True, bodyMarginTop = [],
     topAppBarElements = [], originalTrigger = None, modalActive = False,
     children = [Child 0, Child 1], autofocus = False\<rparr>"

definition world0 :: world where
  "world0 = \<lparr>dialogs = (\<lambda>_. dialog0), scrollLock = 0, activeElement = Some (Outside 7),
     hasFocusFn = (\<lambda>_. True), prevents = (\<lambda>_ _. False),
     getDuration = (\<lambda>n. if n = ''medium4'' then 400 else 200),
     animations = [], tasks = [], timers = [], log = []\<rparr>"

text \<open>The same document with a listener that prevents every \<^verbatim>\<open>open\<close> event.\<close>

definition world_veto :: world where
  "world_veto = world0\<lparr>prevents := (\<lambda>_ t. t = ''open'')\<rparr>"

text \<open>
  The same document where every dialog has a top app bar in its header, without a scroll
  target: with the body, and with a header only.
\<close>

definition world_bar :: world where
  "world_bar = world0\<lparr>dialogs := (\<lambda>_. dialog0\<lparr>topAppBarElements := [False]\<rparr>)\<rparr>"

definition world_header :: world where
  "world_header = world0\<lparr>dialogs :=
     (\<lambda>_. dialog0\<lparr>body := False, topAppBarElements := [False], children := [Child 0]\<rparr>)\<rparr>"

text \<open>The effects that a log starts, finishes and cancels, in order.\<close>

fun started_of :: "action \<Rightarrow> animation list" where
  "started_of (Animate a) = [a]"
| "started_of _ = []"

fun finished_of :: "action \<Rightarrow> animation list" where
  "finished_of (Finished a) = [a]"
| "finished_of _ = []"

fun cancelled_of :: "action \<Rightarrow> animation list" where
  "cancelled_of (Cancel a) = [a]"
| "cancelled_of _ = []"

definition started :: "action list \<Rightarrow> animation list" where
  "started as = concat (map started_of as)"

definition finished :: "action list \<Rightarrow> animation list" where
  "finished as = concat (map finished_of as)"

definition cancels :: "action list \<Rightarrow> animation list" where
  "cancels as = concat (map cancelled_of as)"

text \<open>
  What a toggle leaves behind, \<open>new\<close> being the actions since \<open>w\<close>: the four events (with
  \<^verbatim>\<open>opened\<close> among them), the effects of the open run and then those of the close run started,
  exactly the effects of the open run cancelled, exactly those of the close run finished, the
  dialog closed and hidden, nothing running that was not running before, the scroll lock
  released, both handlers returned.
\<close>

definition toggled :: "did \<Rightarrow> nat \<Rightarrow> nat \<Rightarrow> world \<Rightarrow> world \<Rightarrow> bool" where
  "toggled d i k w w' =
     (emitted d (drop (length (log w)) (log w')) =
        (if k < 3 then [''open'', ''close'', ''opened'', ''closed'']
         else [''open'', ''close'', ''closed'', ''opened''])
      \<and> started (drop (length (log w)) (log w')) =
          open_effects i d (getDuration w ''medium4'') (children (dialogs w d))
          @ close_effects (Suc i) d (getDuration w ''short4'') (children (dialogs w d))
      \<and> set (cancels (drop (length (log w)) (log w'))) =
          set (open_effects i d (getDuration w ''medium4'') (children (dialogs w d)))
      \<and> finished (drop (length (log w)) (log w')) =
          close_effects (Suc i) d (getDuration w ''short4'') (children (dialogs w d))
      \<and> \<not> open (dialogs w' d) \<and> display (dialogs w' d) = ''none'' \<and> \<not> modalActive (dialogs w' d)
      \<and> animations w' = animations w \<and> scrollLock w' = scrollLock w
      \<and> t_pc (tasks w' ! i) = Returned \<and> t_pc (tasks w' ! Suc i) = Returned)"

text \<open>A document whose dialogs are not rendered yet and have the flag set.\<close>

definition world_new :: world where
  "world_new = world0\<lparr>dialogs := (\<lambda>_. dialog0\<lparr>open := True, hasUpdated := False\<rparr>)\<rparr>"

text \<open>
  Two documents reached from \<open>world0\<close>: in the first the close handler of dialog 0 (task 1)
  waits for its run, which has finished; in the second the open run of dialog 0 (task 0) is
  in flight and the flag has just been cleared, so that the close handler (task 1) waits at
  \<^verbatim>\<open>whenDefined()\<close>.
\<close>

definition world_closing :: world where
  "world_closing =
     the (run (open_sched 0 0 0 @ [SetOpen 0 False, Resume 1, Resume 1, Settle 1]) world0)"

definition world_flip :: world where
  "world_flip = the (run [SetOpen 0 True, Resume 0, Resume 0, SetOpen 0 False] world0)"

section \<open>The steps in closed form\<close>

lemma fold_animateTo:
  "fold (\<lambda>c. animateTo i (d, c) kf dur ''linear'') cs w =
     w\<lparr>animations := animations w @ effects i d dur kf cs,
       log := log w @ map Animate (effects i d dur kf cs)\<rparr>"
  by (induction cs arbitrary: w) (simp_all add: animateTo_def effects_def Let_def)

lemma fold_stopAnimations:
  "fold stopAnimations els w =
     w\<lparr>animations := filter (\<lambda>a. target a \<notin> set els) (animations w),
       log := log w @ map Cancel (cancelled els (animations w))\<rparr>"
proof (induction els arbitrary: w)
  case Nil
  then show ?case by simp
next
  case (Cons el els)
  have "fold stopAnimations (el # els) w = fold stopAnimations els (stopAnimations el w)"
    by simp
  also have "\<dots> = (stopAnimations el w)
      \<lparr>animations := filter (\<lambda>a. target a \<notin> set els) (animations (stopAnimations el w)),
       log := log (stopAnimations el w) @ map Cancel (cancelled els (animations (stopAnimations el w)))\<rparr>"
    by (rule Cons.IH)
  also have "\<dots> = w\<lparr>animations := filter (\<lambda>a. target a \<notin> set (el # els)) (animations w),
       log := log w @ map Cancel (cancelled (el # els) (animations w))\<rparr>"
    by (simp add: stopAnimations_def)
  finally show ?case .
qed

lemma stopAnimation_eq:
  "stopAnimation d cs w =
     w\<lparr>animations := filter (\<lambda>a. target a \<notin> set (nodes d cs)) (animations w),
       log := log w @ map Cancel (cancelled (nodes d cs) (animations w))\<rparr>"
proof -
  have "stopAnimation d cs w = fold stopAnimations (nodes d cs) w"
    by (simp add: stopAnimation_def nodes_def fold_map comp_def)
  then show ?thesis by (simp add: fold_stopAnimations)
qed

lemma set_cancelled:
  "set (cancelled els as) = {a \<in> set as. target a \<in> set els}"
  by (induction els arbitrary: as) auto

lemma fst_nodes: "el \<in> set (nodes d cs) \<Longrightarrow> fst el = d"
  by (auto simp: nodes_def)

lemma quiet_filter:
  "list_all (\<lambda>a. fst (target a) \<noteq> d) as \<Longrightarrow> filter (\<lambda>a. target a \<notin> set (nodes d cs)) as = as"
  by (auto simp: list_all_iff filter_id_conv dest: fst_nodes)

lemma quiet_cancelled:
  "list_all (\<lambda>a. fst (target a) \<noteq> d) as \<Longrightarrow> cancelled (nodes d cs) as = []"
proof -
  assume "list_all (\<lambda>a. fst (target a) \<noteq> d) as"
  then have "set (cancelled (nodes d cs) as) = {}"
    by (auto simp: set_cancelled list_all_iff dest: fst_nodes)
  then show ?thesis by simp
qed

lemma topAppBarElements_same:
  "topAppBarElements x = v \<Longrightarrow> x\<lparr>topAppBarElements := v\<rparr> = x"
  by auto

lemma adoptTopAppBar_eq:
  "topAppBarElements (dialogs w d) = [] \<or> body (dialogs w d) \<Longrightarrow>
   adoptTopAppBar d w =
     Inr (w\<lparr>dialogs := (dialogs w)(d := (dialogs w d)
          \<lparr>topAppBarElements := topAppBar_list (topAppBarElements (dialogs w d)),
           bodyMarginTop := topAppBar_margin (topAppBarElements (dialogs w d)) (bodyMarginTop (dialogs w d))\<rparr>),
       log := log w @ topAppBar_log d (topAppBarElements (dialogs w d))\<rparr>)"
  by (cases "topAppBarElements (dialogs w d)")
     (auto simp: adoptTopAppBar_def topAppBar_list_def topAppBar_margin_def topAppBar_log_def logs_def set_dialog_def
        Let_def topAppBarElements_same)

lemma adoptTopAppBar_throws:
  "topAppBarElements (dialogs w d) \<noteq> [] \<Longrightarrow> \<not> body (dialogs w d) \<Longrightarrow>
   adoptTopAppBar d w =
     Inl (TypeError, w\<lparr>log := log w @ topAppBar_thrown d (topAppBarElements (dialogs w d))\<rparr>)"
  by (cases "topAppBarElements (dialogs w d)")
     (auto simp: adoptTopAppBar_def topAppBar_thrown_def logs_def set_dialog_def Let_def
        topAppBarElements_same)

lemmas prims = set_dialog_def set_pc_def dispatch_def logs_def emit_def lockScreen_def unlockScreen_def
  Let_def adoptTopAppBar_eq adoptTopAppBar_throws stopAnimation_eq animateTo_def fold_animateTo focus_def

lemma step_SetOpen:
  assumes "hasUpdated (dialogs w d)" "open (dialogs w d) \<noteq> v"
  shows "step (SetOpen d v) w =
     Some (w\<lparr>dialogs := (dialogs w)(d := (dialogs w d)\<lparr>open := v\<rparr>),
             tasks := tasks w @ [\<lparr>t_dialog = d, t_hasUpdated = True, t_children = [], t_pc = AwaitDefined\<rparr>]\<rparr>)"
  using assms by (auto simp: step_def onOpenChange_def prims)

lemma step_FirstUpdate:
  assumes "\<not> hasUpdated (dialogs w d)"
  shows "step (FirstUpdate d) w =
     Some (w\<lparr>dialogs := (dialogs w)(d := (dialogs w d)\<lparr>hasUpdated := True\<rparr>),
             tasks := tasks w @ [\<lparr>t_dialog = d, t_hasUpdated = False, t_children = [],
                        t_pc = (if open (dialogs w d) then AwaitDefined else Returned)\<rparr>]\<rparr>)"
  using assms by (auto simp: step_def onOpenChange_def prims)

lemma step_Settle:
  "step (Settle i) w =
     Some (w\<lparr>animations := filter (\<lambda>a. owner a \<noteq> i) (animations w),
             log := log w @ map Finished (filter (\<lambda>a. owner a = i) (animations w))\<rparr>)"
  by (simp add: step_def)

lemma step_Timer:
  assumes "k < length (timers w)"
  shows "step (Timer k) w =
     Some (case timers w ! k of
             FocusDialog d \<Rightarrow>
               w\<lparr>activeElement := Some (dialog_focus d (autofocus (dialogs w d))),
                 timers := take k (timers w) @ drop (Suc k) (timers w),
                 log := log w @ [Focus (dialog_focus d (autofocus (dialogs w d)))]\<rparr>
           | FocusTrigger e \<Rightarrow>
               w\<lparr>activeElement := Some e,
                 timers := take k (timers w) @ drop (Suc k) (timers w),
                 log := log w @ [Focus e]\<rparr>)"
  using assms by (simp add: step_def run_callback_def dialog_focus_def prims split: callback.splits)

lemma step_Disconnect:
  "step (Disconnect d) w =
     Some (w\<lparr>scrollLock := scrollLock w - 1, log := log w @ [UnlockScreen d]\<rparr>)"
  by (simp add: step_def disconnectedCallback_def prims)

lemma resume_defined_first:
  assumes "i < length (tasks w)" "t_pc (tasks w ! i) = AwaitDefined" "\<not> t_hasUpdated (tasks w ! i)"
  shows "step (Resume i) w =
     Some (w\<lparr>tasks := (tasks w)[i := (tasks w ! i)\<lparr>t_pc := AwaitUpdateComplete\<rparr>]\<rparr>)"
  using assms by (simp add: step_def resume_def prims)

lemma resume_open_request:
  assumes "at_body w i" "t_dialog (tasks w ! i) = d"
    "open (dialogs w d)" "\<not> (t_hasUpdated (tasks w ! i) \<and> prevents w d ''open'')"
    "bar_has_body (dialogs w d)"
  shows "step (Resume i) w =
     Some (w\<lparr>dialogs := (dialogs w)(d := shown (dialogs w d) (activeElement w)),
             scrollLock := scrollLock w + 1,
             animations := filter (\<lambda>a. target a \<notin> set (nodes d (children (dialogs w d)))) (animations w),
             tasks := (tasks w)[i := (tasks w ! i)\<lparr>t_children := children (dialogs w d), t_pc := AwaitStopOpen\<rparr>],
             log := log w
                  @ (if t_hasUpdated (tasks w ! i)
                     then [Emit d \<lparr>ev_type = ''open'', cancelable = True, defaultPrevented = False\<rparr>] else [])
                  @ [SetDisplay d ''flex''] @ topAppBar_log d (topAppBarElements (dialogs w d))
                  @ [Activate d, LockScreen d]
                  @ map Cancel (cancelled (nodes d (children (dialogs w d))) (animations w))\<rparr>)"
  using assms
  by (auto simp: at_body_def step_def resume_def onOpenChange_body_def open_request_def shown_def
        bar_has_body_def prims)

lemma resume_open_throw:
  assumes "at_body w i" "t_dialog (tasks w ! i) = d"
    "open (dialogs w d)" "\<not> (t_hasUpdated (tasks w ! i) \<and> prevents w d ''open'')"
    "\<not> bar_has_body (dialogs w d)"
  shows "step (Resume i) w =
     Some (w\<lparr>dialogs := (dialogs w)(d := (dialogs w d)\<lparr>display := ''flex''\<rparr>),
             tasks := (tasks w)[i := (tasks w ! i)\<lparr>t_children := children (dialogs w d),
                                                  t_pc := Rejected TypeError\<rparr>],
             log := log w
                  @ (if t_hasUpdated (tasks w ! i)
                     then [Emit d \<lparr>ev_type = ''open'', cancelable = True, defaultPrevented = False\<rparr>] else [])
                  @ [SetDisplay d ''flex''] @ topAppBar_thrown d (topAppBarElements (dialogs w d))\<rparr>)"
  using assms
  by (auto simp: at_body_def step_def resume_def onOpenChange_body_def open_request_def
        bar_has_body_def prims)

lemma resume_open_veto:
  assumes "at_body w i" "t_dialog (tasks w ! i) = d"
    "open (dialogs w d)" "t_hasUpdated (tasks w ! i)" "prevents w d ''open''"
  shows "step (Resume i) w =
     Some (w\<lparr>tasks := (tasks w)[i := (tasks w ! i)\<lparr>t_children := children (dialogs w d), t_pc := Returned\<rparr>],
             log := log w @ [Emit d \<lparr>ev_type = ''open'', cancelable = True, defaultPrevented = True\<rparr>]\<rparr>)"
  using assms
  by (auto simp: at_body_def step_def resume_def onOpenChange_body_def open_request_def prims)

lemma resume_close_request:
  assumes "at_body w i" "t_dialog (tasks w ! i) = d"
    "\<not> open (dialogs w d)" "\<not> prevents w d ''close''"
  shows "step (Resume i) w =
     Some (w\<lparr>dialogs := (dialogs w)(d := (dialogs w d)\<lparr>modalActive := False\<rparr>),
             animations := filter (\<lambda>a. target a \<notin> set (nodes d (children (dialogs w d)))) (animations w),
             tasks := (tasks w)[i := (tasks w ! i)\<lparr>t_children := children (dialogs w d), t_pc := AwaitStopClose\<rparr>],
             log := log w
                  @ [Emit d \<lparr>ev_type = ''close'', cancelable = True, defaultPrevented = False\<rparr>, Deactivate d]
                  @ map Cancel (cancelled (nodes d (children (dialogs w d))) (animations w))\<rparr>)"
  using assms
  by (auto simp: at_body_def step_def resume_def onOpenChange_body_def close_request_def prims)

lemma resume_close_veto:
  assumes "at_body w i" "t_dialog (tasks w ! i) = d"
    "\<not> open (dialogs w d)" "prevents w d ''close''"
  shows "step (Resume i) w =
     Some (w\<lparr>tasks := (tasks w)[i := (tasks w ! i)\<lparr>t_children := children (dialogs w d), t_pc := Returned\<rparr>],
             log := log w @ [Emit d \<lparr>ev_type = ''close'', cancelable = True, defaultPrevented = True\<rparr>]\<rparr>)"
  using assms
  by (auto simp: at_body_def step_def resume_def onOpenChange_body_def close_request_def prims)

lemma resume_open_run:
  assumes "i < length (tasks w)" "t_pc (tasks w ! i) = AwaitStopOpen"
  shows "step (Resume i) w =
     Some (w\<lparr>animations := animations w @
                open_effects i (t_dialog (tasks w ! i)) (open_duration w (tasks w ! i)) (t_children (tasks w ! i)),
             tasks := (tasks w)[i := (tasks w ! i)\<lparr>t_pc := AwaitOpenRun\<rparr>],
             timers := timers w @ [FocusDialog (t_dialog (tasks w ! i))],
             log := log w @ map Animate
                (open_effects i (t_dialog (tasks w ! i)) (open_duration w (tasks w ! i)) (t_children (tasks w ! i)))\<rparr>)"
  using assms
  by (simp add: step_def resume_def open_run_def open_effects_def open_duration_def prims)

lemma resume_open_done:
  assumes "i < length (tasks w)" "t_pc (tasks w ! i) = AwaitOpenRun"
  shows "step (Resume i) w =
     (if settled i w
      then Some (w\<lparr>tasks := (tasks w)[i := (tasks w ! i)\<lparr>t_pc := Returned\<rparr>],
             log := log w @ (if t_hasUpdated (tasks w ! i)
                 then [Emit (t_dialog (tasks w ! i)) \<lparr>ev_type = ''opened'', cancelable = False, defaultPrevented = False\<rparr>]
                 else [])\<rparr>)
      else None)"
  using assms
  by (simp add: step_def resume_def open_done_def prims)

lemma resume_close_run:
  assumes "i < length (tasks w)" "t_pc (tasks w ! i) = AwaitStopClose"
  shows "step (Resume i) w =
     Some (w\<lparr>animations := animations w @
                close_effects i (t_dialog (tasks w ! i)) (getDuration w ''short4'') (t_children (tasks w ! i)),
             tasks := (tasks w)[i := (tasks w ! i)\<lparr>t_pc := AwaitCloseRun\<rparr>],
             log := log w @ map Animate
                (close_effects i (t_dialog (tasks w ! i)) (getDuration w ''short4'') (t_children (tasks w ! i)))\<rparr>)"
  using assms
  by (simp add: step_def resume_def close_run_def close_effects_def prims)

lemma resume_close_done:
  assumes "i < length (tasks w)" "t_pc (tasks w ! i) = AwaitCloseRun" "t_dialog (tasks w ! i) = d"
  shows "step (Resume i) w =
     (if settled i w
      then Some (w\<lparr>dialogs := (dialogs w)(d := (dialogs w d)\<lparr>display := ''none''\<rparr>),
             scrollLock := scrollLock w - 1,
             tasks := (tasks w)[i := (tasks w ! i)\<lparr>t_pc := Returned\<rparr>],
             timers := timers w @ restore (hasFocusFn w) (originalTrigger (dialogs w d)),
             log := log w @ [SetDisplay d ''none'', UnlockScreen d,
                     Emit d \<lparr>ev_type = ''closed'', cancelable = False, defaultPrevented = False\<rparr>]\<rparr>)
      else None)"
  using assms
  by (auto simp: step_def resume_def close_done_def restore_def prims split: option.splits)

lemmas steps = step_SetOpen step_FirstUpdate step_Settle step_Timer step_Disconnect
  resume_defined_first resume_open_request resume_open_throw resume_open_veto resume_close_request
  resume_close_veto
  resume_open_run resume_open_done resume_close_run resume_close_done

lemma owner_effects:
  "filter (\<lambda>a. owner a \<noteq> i) (effects i d dur kf cs) = []"
  "filter (\<lambda>a. owner a = i) (effects i d dur kf cs) = effects i d dur kf cs"
  "i \<noteq> j \<Longrightarrow> filter (\<lambda>a. owner a \<noteq> j) (effects i d dur kf cs) = effects i d dur kf cs"
  "i \<noteq> j \<Longrightarrow> filter (\<lambda>a. owner a = j) (effects i d dur kf cs) = []"
  "list_all (\<lambda>a. owner a \<noteq> j) (effects i d dur kf cs) = (cs = [] \<or> i \<noteq> j)"
  by (auto simp: effects_def filter_empty_conv filter_id_conv list_all_iff)

lemma owner_open_effects:
  "filter (\<lambda>a. owner a \<noteq> i) (open_effects i d dur cs) = []"
  "filter (\<lambda>a. owner a = i) (open_effects i d dur cs) = open_effects i d dur cs"
  "i \<noteq> j \<Longrightarrow> filter (\<lambda>a. owner a \<noteq> j) (open_effects i d dur cs) = open_effects i d dur cs"
  "i \<noteq> j \<Longrightarrow> filter (\<lambda>a. owner a = j) (open_effects i d dur cs) = []"
  "list_all (\<lambda>a. owner a \<noteq> j) (open_effects i d dur cs) = (i \<noteq> j)"
  by (auto simp: open_effects_def owner_effects)

lemma owner_close_effects:
  "filter (\<lambda>a. owner a \<noteq> i) (close_effects i d dur cs) = []"
  "filter (\<lambda>a. owner a = i) (close_effects i d dur cs) = close_effects i d dur cs"
  "i \<noteq> j \<Longrightarrow> filter (\<lambda>a. owner a \<noteq> j) (close_effects i d dur cs) = close_effects i d dur cs"
  "i \<noteq> j \<Longrightarrow> filter (\<lambda>a. owner a = j) (close_effects i d dur cs) = []"
  "list_all (\<lambda>a. owner a \<noteq> j) (close_effects i d dur cs) = (i \<noteq> j)"
  by (auto simp: close_effects_def owner_effects)

lemma owned_filter:
  "list_all (\<lambda>a. owner a < n) as \<Longrightarrow> n \<le> i \<Longrightarrow> filter (\<lambda>a. owner a \<noteq> i) as = as"
  "list_all (\<lambda>a. owner a < n) as \<Longrightarrow> n \<le> i \<Longrightarrow> filter (\<lambda>a. owner a = i) as = []"
  "list_all (\<lambda>a. owner a < n) as \<Longrightarrow> n \<le> i \<Longrightarrow> list_all (\<lambda>a. owner a \<noteq> i) as"
  by (auto simp: list_all_iff filter_empty_conv filter_id_conv)

lemma bar_has_body_update:
  "bar_has_body (x\<lparr>open := v\<rparr>) = bar_has_body x"
  "bar_has_body (x\<lparr>hasUpdated := v\<rparr>) = bar_has_body x"
  "bar_has_body (x\<lparr>display := s\<rparr>) = bar_has_body x"
  "bar_has_body (x\<lparr>modalActive := v\<rparr>) = bar_has_body x"
  "bar_has_body (x\<lparr>originalTrigger := e\<rparr>) = bar_has_body x"
  by (simp_all add: bar_has_body_def)

lemmas sched = steps at_body_def quiet_filter quiet_cancelled quiet_def owned_def
  owner_open_effects owner_close_effects open_duration_def settled_def shown_def bar_has_body_update

section \<open>Undisturbed transitions\<close>

lemma run_append:
  "run (xs @ ys) w = (case run xs w of None \<Rightarrow> None | Some w1 \<Rightarrow> run ys w1)"
  by (induction xs arbitrary: w) (auto split: option.splits)

lemma open_cycle:
  assumes "hasUpdated (dialogs w d)" "\<not> open (dialogs w d)" "\<not> prevents w d ''open''"
    "bar_has_body (dialogs w d)" "quiet d w" "owned w" "i = length (tasks w)" "k = length (timers w)"
  shows "run (open_sched d i k) w =
     Some (w\<lparr>dialogs := (dialogs w)(d := shown ((dialogs w d)\<lparr>open := True\<rparr>) (activeElement w)),
             scrollLock := scrollLock w + 1,
             activeElement := Some (dialog_focus d (autofocus (dialogs w d))),
             tasks := tasks w @
               [\<lparr>t_dialog = d, t_hasUpdated = True, t_children = children (dialogs w d), t_pc = Returned\<rparr>],
             log := log w
                  @ [Emit d \<lparr>ev_type = ''open'', cancelable = True, defaultPrevented = False\<rparr>,
                     SetDisplay d ''flex'']
                  @ topAppBar_log d (topAppBarElements (dialogs w d))
                  @ [Activate d, LockScreen d]
                  @ map Animate (open_effects i d (getDuration w ''medium4'') (children (dialogs w d)))
                  @ [Focus (dialog_focus d (autofocus (dialogs w d)))]
                  @ map Finished (open_effects i d (getDuration w ''medium4'') (children (dialogs w d)))
                  @ [Emit d \<lparr>ev_type = ''opened'', cancelable = False, defaultPrevented = False\<rparr>]\<rparr>)"
  using assms
  by (simp add: open_sched_def sched owned_filter [where n = "length (tasks w)"])

lemma close_cycle:
  assumes "hasUpdated (dialogs w d)" "open (dialogs w d)" "\<not> prevents w d ''close''"
    "quiet d w" "owned w" "i = length (tasks w)"
  shows "run (close_sched d i) w =
     Some (w\<lparr>dialogs := (dialogs w)(d := (dialogs w d)\<lparr>open := False, modalActive := False, display := ''none''\<rparr>),
             scrollLock := scrollLock w - 1,
             tasks := tasks w @
               [\<lparr>t_dialog = d, t_hasUpdated = True, t_children = children (dialogs w d), t_pc = Returned\<rparr>],
             timers := timers w @ restore (hasFocusFn w) (originalTrigger (dialogs w d)),
             log := log w
                  @ [Emit d \<lparr>ev_type = ''close'', cancelable = True, defaultPrevented = False\<rparr>,
                     Deactivate d]
                  @ map Animate (close_effects i d (getDuration w ''short4'') (children (dialogs w d)))
                  @ map Finished (close_effects i d (getDuration w ''short4'') (children (dialogs w d)))
                  @ [SetDisplay d ''none'', UnlockScreen d,
                     Emit d \<lparr>ev_type = ''closed'', cancelable = False, defaultPrevented = False\<rparr>]\<rparr>)"
  using assms
  by (simp add: close_sched_def sched owned_filter [where n = "length (tasks w)"])


lemma owned_mono:
  "list_all (\<lambda>a. owner a < n) as \<Longrightarrow> n \<le> m \<Longrightarrow> list_all (\<lambda>a. owner a < m) as"
  by (auto simp: list_all_iff)

lemma open_cycle_frame:
  assumes "hasUpdated (dialogs w d)" "\<not> open (dialogs w d)" "\<not> prevents w d ''open''"
    "bar_has_body (dialogs w d)" "quiet d w" "owned w" "i = length (tasks w)" "k = length (timers w)"
  shows "\<exists>w'. run (open_sched d i k) w = Some w'
     \<and> scrollLock w' = scrollLock w + 1
     \<and> open (dialogs w' d) \<and> hasUpdated (dialogs w' d) \<and> display (dialogs w' d) = ''flex''
     \<and> (\<forall>x. x \<noteq> d \<longrightarrow> dialogs w' x = dialogs w x)
     \<and> animations w' = animations w \<and> timers w' = timers w \<and> prevents w' = prevents w
     \<and> length (tasks w') = Suc (length (tasks w))
     \<and> log w' = log w
          @ [Emit d \<lparr>ev_type = ''open'', cancelable = True, defaultPrevented = False\<rparr>,
             SetDisplay d ''flex'']
          @ topAppBar_log d (topAppBarElements (dialogs w d))
          @ [Activate d, LockScreen d]
          @ map Animate (open_effects i d (getDuration w ''medium4'') (children (dialogs w d)))
          @ [Focus (dialog_focus d (autofocus (dialogs w d)))]
          @ map Finished (open_effects i d (getDuration w ''medium4'') (children (dialogs w d)))
          @ [Emit d \<lparr>ev_type = ''opened'', cancelable = False, defaultPrevented = False\<rparr>]"
  unfolding open_cycle [OF assms] using assms(1) by (simp add: shown_def)

lemma close_cycle_frame:
  assumes "hasUpdated (dialogs w d)" "open (dialogs w d)" "\<not> prevents w d ''close''"
    "quiet d w" "owned w" "i = length (tasks w)"
  shows "\<exists>w'. run (close_sched d i) w = Some w'
     \<and> scrollLock w' = scrollLock w - 1
     \<and> \<not> open (dialogs w' d) \<and> hasUpdated (dialogs w' d) \<and> display (dialogs w' d) = ''none''
     \<and> (\<forall>x. x \<noteq> d \<longrightarrow> dialogs w' x = dialogs w x)
     \<and> animations w' = animations w \<and> prevents w' = prevents w
     \<and> length (tasks w') = Suc (length (tasks w))"
  unfolding close_cycle [OF assms] using assms(1) by simp

lemma open_cycle_lock:
  assumes "hasUpdated (dialogs w d)" "\<not> open (dialogs w d)" "\<not> prevents w d ''open''"
    "bar_has_body (dialogs w d)" "quiet d w" "owned w" "i = length (tasks w)" "k = length (timers w)"
  shows "\<exists>w'. run (open_sched d i k) w = Some w'
     \<and> scrollLock w' = scrollLock w + 1
     \<and> open (dialogs w' d) \<and> hasUpdated (dialogs w' d)
     \<and> (\<forall>x. x \<noteq> d \<longrightarrow> dialogs w' x = dialogs w x)
     \<and> animations w' = animations w \<and> timers w' = timers w \<and> prevents w' = prevents w
     \<and> length (tasks w') = Suc (length (tasks w))"
  using open_cycle_frame [OF assms] by (elim exE conjE) (intro exI conjI, assumption+)

section \<open>A top app bar without a body\<close>

text \<open>
  When a top app bar is slotted in the header and no body is rendered, the open branch stops at
  line 244: the event has been dispatched, the display set and the scroll target assigned (it
  stays unset), the trigger is not recorded, the modal helper is not activated, the scroll lock
  is not taken, no effect is stopped or started, \<^verbatim>\<open>opened\<close> is never dispatched, and the call
  cannot be resumed.
\<close>

lemma open_without_body:
  assumes "hasUpdated (dialogs w d)" "\<not> open (dialogs w d)" "\<not> prevents w d ''open''"
    "\<not> bar_has_body (dialogs w d)" "i = length (tasks w)"
  shows "run [SetOpen d True, Resume i] w =
     Some (w\<lparr>dialogs := (dialogs w)(d := (dialogs w d)\<lparr>open := True, display := ''flex''\<rparr>),
             tasks := tasks w @
               [\<lparr>t_dialog = d, t_hasUpdated = True, t_children = children (dialogs w d),
                 t_pc = Rejected TypeError\<rparr>],
             log := log w
                  @ [Emit d \<lparr>ev_type = ''open'', cancelable = True, defaultPrevented = False\<rparr>,
                     SetDisplay d ''flex'']
                  @ topAppBar_thrown d (topAppBarElements (dialogs w d))\<rparr>)"
  using assms by (simp add: sched)

lemma rejected_is_over:
  "i < length (tasks w) \<Longrightarrow> t_pc (tasks w ! i) = Rejected err \<Longrightarrow> step (Resume i) w = None"
  by (simp add: step_def resume_def)

lemma open_header_only:
  "map_option (\<lambda>w. (log w, display (dialogs w 0), topAppBarElements (dialogs w 0),
                     modalActive (dialogs w 0), scrollLock w, animations w, map t_pc (tasks w)))
     (run [SetOpen 0 True, Resume 0] world_header)
   = Some ([Emit 0 \<lparr>ev_type = ''open'', cancelable = True, defaultPrevented = False\<rparr>,
            SetDisplay 0 ''flex'', SetScrollTarget 0],
           ''flex'', [False], False, 0, [], [Rejected TypeError])"
  by code_simp

section \<open>The first render\<close>

lemma quietly_trans: "quietly d w w1 \<Longrightarrow> quietly d w1 w2 \<Longrightarrow> quietly d w w2"
  by (auto simp: quietly_def)

lemma silent_maps:
  "list_all (silent d) (map Cancel xs)"
  "list_all (silent d) (map Finished xs)"
  "list_all (silent d) (topAppBar_log x ts)"
  "list_all (silent d) (topAppBar_thrown x ts)"
  by (auto simp: list_all_iff topAppBar_log_def topAppBar_thrown_def split: list.splits)

lemma silent_effects:
  "x \<noteq> d \<or> dur = 0 \<Longrightarrow> list_all (silent d) (map Animate (effects i x dur kf cs))"
  by (auto simp: list_all_iff effects_def)

lemma silent_open_effects:
  "x \<noteq> d \<or> dur = 0 \<Longrightarrow> list_all (silent d) (map Animate (open_effects i x dur cs))"
  using silent_effects [of x d dur i "''opacity 0 0@0.2 1@0.8 1''" cs]
  by (auto simp: open_effects_def)

lemma silent_close_effects:
  "x \<noteq> d \<Longrightarrow> list_all (silent d) (map Animate (close_effects i x dur cs))"
  using silent_effects [of x d dur i "''opacity 1 0@0.75 0''" cs]
  by (auto simp: close_effects_def)

lemma list_all_update:
  "list_all P xs \<Longrightarrow> P y \<Longrightarrow> list_all P (xs[i := y])"
  by (induction xs arbitrary: i) (auto split: nat.splits)

lemma first_call_nth:
  "first_render d w \<Longrightarrow> i < length (tasks w) \<Longrightarrow> first_call d (tasks w ! i)"
  by (simp add: first_render_def list_all_length)

lemma keep:
  assumes "list_all (first_call d) (tasks w)" "first_call d t'" "list_all (silent d) new"
    "open (dialogs w' d)" "tasks w' = (tasks w)[i := t']" "log w' = log w @ new"
  shows "first_render d w' \<and> quietly d w w'"
  using assms by (auto simp: first_render_def quietly_def intro: list_all_update)

lemma first_render_resume:
  assumes inv: "first_render d w" and st: "step (Resume i) w = Some w'"
  shows "first_render d w' \<and> quietly d w w'"
proof -
  have i: "i < length (tasks w)"
    using st by (auto simp: step_def resume_def split: if_splits)
  define t where "t = tasks w ! i"
  define x where "x = t_dialog t"
  have fc: "first_call d t"
    using inv i by (simp add: t_def first_call_nth)
  have op: "open (dialogs w d)" and all: "list_all (first_call d) (tasks w)"
    using inv by (simp_all add: first_render_def)
  have body: "first_render d w' \<and> quietly d w w'" if ab: "at_body w i"
  proof (cases "open (dialogs w x)")
    case True
    show ?thesis
    proof (cases "t_hasUpdated t \<and> prevents w x ''open''")
      case True
      then have "x \<noteq> d" using fc by (auto simp: first_call_def x_def)
      moreover have "w' = w\<lparr>tasks := (tasks w)[i := (tasks w ! i)\<lparr>t_children := children (dialogs w x), t_pc := Returned\<rparr>],
             log := log w @ [Emit x \<lparr>ev_type = ''open'', cancelable = True, defaultPrevented = True\<rparr>]\<rparr>"
        using resume_open_veto [of w i x] ab \<open>open (dialogs w x)\<close> True st by (simp add: t_def x_def)
      ultimately show ?thesis
        using op fc
        by (intro keep [OF all]) (auto simp: first_call_def t_def x_def shown_def silent_maps silent_open_effects silent_close_effects)
    next
      case nv: False
      show ?thesis
      proof (cases "bar_has_body (dialogs w x)")
      case False
      have w': "w' = w\<lparr>dialogs := (dialogs w)(x := (dialogs w x)\<lparr>display := ''flex''\<rparr>),
             tasks := (tasks w)[i := (tasks w ! i)\<lparr>t_children := children (dialogs w x),
                                                  t_pc := Rejected TypeError\<rparr>],
             log := log w
                  @ (if t_hasUpdated (tasks w ! i)
                     then [Emit x \<lparr>ev_type = ''open'', cancelable = True, defaultPrevented = False\<rparr>] else [])
                  @ [SetDisplay x ''flex''] @ topAppBar_thrown x (topAppBarElements (dialogs w x))\<rparr>"
        using resume_open_throw [of w i x] ab \<open>open (dialogs w x)\<close> nv False st by (simp add: t_def x_def)
      have "t_hasUpdated t \<longrightarrow> x \<noteq> d" using fc by (auto simp: first_call_def x_def)
      then show ?thesis
        using op fc unfolding w'
        by (intro keep [OF all]) (auto simp: first_call_def t_def x_def silent_maps)
      next
      case True
      have w': "w' = w\<lparr>dialogs := (dialogs w)(x := shown (dialogs w x) (activeElement w)),
             scrollLock := scrollLock w + 1,
             animations := filter (\<lambda>a. target a \<notin> set (nodes x (children (dialogs w x)))) (animations w),
             tasks := (tasks w)[i := (tasks w ! i)\<lparr>t_children := children (dialogs w x), t_pc := AwaitStopOpen\<rparr>],
             log := log w
                  @ (if t_hasUpdated (tasks w ! i)
                     then [Emit x \<lparr>ev_type = ''open'', cancelable = True, defaultPrevented = False\<rparr>] else [])
                  @ [SetDisplay x ''flex''] @ topAppBar_log x (topAppBarElements (dialogs w x))
                  @ [Activate x, LockScreen x]
                  @ map Cancel (cancelled (nodes x (children (dialogs w x))) (animations w))\<rparr>"
        using resume_open_request [of w i x] ab \<open>open (dialogs w x)\<close> nv True st by (simp add: t_def x_def)
      have "t_hasUpdated t \<longrightarrow> x \<noteq> d" using fc by (auto simp: first_call_def x_def)
      then show ?thesis
        using op fc unfolding w'
        by (intro keep [OF all]) (auto simp: first_call_def t_def x_def shown_def silent_maps silent_open_effects silent_close_effects)
      qed
    qed
  next
    case False
    then have xd: "x \<noteq> d" using op by auto
    show ?thesis
    proof (cases "prevents w x ''close''")
      case True
      have "w' = w\<lparr>tasks := (tasks w)[i := (tasks w ! i)\<lparr>t_children := children (dialogs w x), t_pc := Returned\<rparr>],
             log := log w @ [Emit x \<lparr>ev_type = ''close'', cancelable = True, defaultPrevented = True\<rparr>]\<rparr>"
        using resume_close_veto [of w i x] ab \<open>\<not> open (dialogs w x)\<close> True st by (simp add: t_def x_def)
      then show ?thesis
        using op fc xd
        by (intro keep [OF all]) (auto simp: first_call_def t_def x_def shown_def silent_maps silent_open_effects silent_close_effects)
    next
      case np: False
      have "w' = w\<lparr>dialogs := (dialogs w)(x := (dialogs w x)\<lparr>modalActive := False\<rparr>),
             animations := filter (\<lambda>a. target a \<notin> set (nodes x (children (dialogs w x)))) (animations w),
             tasks := (tasks w)[i := (tasks w ! i)\<lparr>t_children := children (dialogs w x), t_pc := AwaitStopClose\<rparr>],
             log := log w
                  @ [Emit x \<lparr>ev_type = ''close'', cancelable = True, defaultPrevented = False\<rparr>, Deactivate x]
                  @ map Cancel (cancelled (nodes x (children (dialogs w x))) (animations w))\<rparr>"
        using resume_close_request [of w i x] ab \<open>\<not> open (dialogs w x)\<close> np st by (simp add: t_def x_def)
      then show ?thesis
        using op fc xd
        by (intro keep [OF all]) (auto simp: first_call_def t_def x_def shown_def silent_maps silent_open_effects silent_close_effects)
    qed
  qed
  show ?thesis
  proof (cases "t_pc t")
    case AwaitDefined
    show ?thesis
    proof (cases "t_hasUpdated t")
      case True
      then show ?thesis using body AwaitDefined i by (simp add: at_body_def t_def)
    next
      case False
      then have "w' = w\<lparr>tasks := (tasks w)[i := (tasks w ! i)\<lparr>t_pc := AwaitUpdateComplete\<rparr>]\<rparr>"
        using resume_defined_first [of i w] AwaitDefined i st by (simp add: t_def)
      then show ?thesis
        using op fc
        by (intro keep [OF all, where new = "[]"]) (simp_all add: first_call_def t_def)
    qed
  next
    case AwaitUpdateComplete
    then have "hasUpdated (dialogs w x)"
      using st i by (auto simp: step_def resume_def t_def x_def split: if_splits)
    then show ?thesis using body AwaitUpdateComplete i by (simp add: at_body_def t_def x_def)
  next
    case AwaitStopOpen
    then have "w' = w\<lparr>animations := animations w @
                open_effects i (t_dialog (tasks w ! i)) (open_duration w (tasks w ! i)) (t_children (tasks w ! i)),
             tasks := (tasks w)[i := (tasks w ! i)\<lparr>t_pc := AwaitOpenRun\<rparr>],
             timers := timers w @ [FocusDialog (t_dialog (tasks w ! i))],
             log := log w @ map Animate
                (open_effects i (t_dialog (tasks w ! i)) (open_duration w (tasks w ! i)) (t_children (tasks w ! i)))\<rparr>"
      using resume_open_run [of i w] i st by (simp add: t_def)
    moreover have "x \<noteq> d \<or> open_duration w t = 0"
      using fc by (auto simp: first_call_def x_def open_duration_def)
    ultimately show ?thesis
      using op fc
        by (intro keep [OF all]) (auto simp: first_call_def t_def x_def shown_def silent_maps silent_open_effects silent_close_effects)
  next
    case AwaitStopClose
    then have xd: "x \<noteq> d" using fc by (auto simp: first_call_def x_def)
    have "w' = w\<lparr>animations := animations w @
                close_effects i (t_dialog (tasks w ! i)) (getDuration w ''short4'') (t_children (tasks w ! i)),
             tasks := (tasks w)[i := (tasks w ! i)\<lparr>t_pc := AwaitCloseRun\<rparr>],
             log := log w @ map Animate
                (close_effects i (t_dialog (tasks w ! i)) (getDuration w ''short4'') (t_children (tasks w ! i)))\<rparr>"
      using resume_close_run [of i w] AwaitStopClose i st by (simp add: t_def)
    then show ?thesis
      using op fc xd
        by (intro keep [OF all]) (auto simp: first_call_def t_def x_def shown_def silent_maps silent_open_effects silent_close_effects)
  next
    case AwaitOpenRun
    then have "w' = w\<lparr>tasks := (tasks w)[i := (tasks w ! i)\<lparr>t_pc := Returned\<rparr>],
             log := log w @ (if t_hasUpdated (tasks w ! i)
                 then [Emit (t_dialog (tasks w ! i)) \<lparr>ev_type = ''opened'', cancelable = False, defaultPrevented = False\<rparr>]
                 else [])\<rparr>"
      using resume_open_done [of i w] i st by (simp add: t_def split: if_splits)
    moreover have "t_hasUpdated t \<longrightarrow> x \<noteq> d" using fc by (auto simp: first_call_def x_def)
    ultimately show ?thesis
      using op fc
        by (intro keep [OF all]) (auto simp: first_call_def t_def x_def shown_def silent_maps silent_open_effects silent_close_effects)
  next
    case AwaitCloseRun
    then have xd: "x \<noteq> d" using fc by (auto simp: first_call_def x_def)
    have "w' = w\<lparr>dialogs := (dialogs w)(x := (dialogs w x)\<lparr>display := ''none''\<rparr>),
             scrollLock := scrollLock w - 1,
             tasks := (tasks w)[i := (tasks w ! i)\<lparr>t_pc := Returned\<rparr>],
             timers := timers w @ restore (hasFocusFn w) (originalTrigger (dialogs w x)),
             log := log w @ [SetDisplay x ''none'', UnlockScreen x,
                     Emit x \<lparr>ev_type = ''closed'', cancelable = False, defaultPrevented = False\<rparr>]\<rparr>"
      using resume_close_done [of i w x] AwaitCloseRun i st by (simp add: t_def x_def split: if_splits)
    then show ?thesis
      using op fc xd
        by (intro keep [OF all]) (auto simp: first_call_def t_def x_def shown_def silent_maps silent_open_effects silent_close_effects)
  next
    case Returned
    then show ?thesis using st i by (simp add: step_def resume_def t_def)
  next
    case (Rejected err)
    then show ?thesis using st i by (simp add: step_def resume_def t_def)
  qed
qed


lemma first_render_step:
  assumes inv: "first_render d w" and st: "step l w = Some w'" and l: "\<not> writes_open d l"
  shows "first_render d w' \<and> quietly d w w'"
proof (cases l)
  case (FirstUpdate x)
  then have nu: "\<not> hasUpdated (dialogs w x)"
    using st by (auto simp: step_def split: if_splits)
  then have "w' = w\<lparr>dialogs := (dialogs w)(x := (dialogs w x)\<lparr>hasUpdated := True\<rparr>),
             tasks := tasks w @ [\<lparr>t_dialog = x, t_hasUpdated = False, t_children = [],
                        t_pc = (if open (dialogs w x) then AwaitDefined else Returned)\<rparr>]\<rparr>"
    using st FirstUpdate by (simp add: step_FirstUpdate)
  then show ?thesis
    using inv by (auto simp: first_render_def quietly_def first_call_def)
next
  case (SetOpen x v)
  then have xd: "x \<noteq> d" using l by simp
  show ?thesis
  proof (cases "open (dialogs w x) = v")
    case True
    then have "w' = w" using st SetOpen by (simp add: step_def)
    then show ?thesis using inv by (simp add: quietly_def)
  next
    case False
    then have "w' = w\<lparr>dialogs := (dialogs w)(x := (dialogs w x)\<lparr>open := v\<rparr>)\<rparr>
        \<or> w' = w\<lparr>dialogs := (dialogs w)(x := (dialogs w x)\<lparr>open := v\<rparr>),
             tasks := tasks w @ [\<lparr>t_dialog = x, t_hasUpdated = True, t_children = [], t_pc = AwaitDefined\<rparr>]\<rparr>"
      using st SetOpen by (cases "hasUpdated (dialogs w x)") (simp_all add: step_SetOpen, simp add: step_def set_dialog_def)
    then show ?thesis
      using inv xd by (auto simp: first_render_def quietly_def first_call_def)
  qed
next
  case (Resume i)
  then show ?thesis using inv st by (simp add: first_render_resume)
next
  case (Settle i)
  then have "w' = w\<lparr>animations := filter (\<lambda>a. owner a \<noteq> i) (animations w),
             log := log w @ map Finished (filter (\<lambda>a. owner a = i) (animations w))\<rparr>"
    using st by (simp add: step_Settle)
  then show ?thesis
    using inv by (auto simp: first_render_def quietly_def silent_maps)
next
  case (Timer k)
  then have k: "k < length (timers w)"
    using st by (auto simp: step_def split: if_splits)
  show ?thesis
    using st inv unfolding Timer step_Timer [OF k]
    by (cases "timers w ! k") (auto simp: first_render_def quietly_def)
next
  case (Disconnect x)
  then have "w' = w\<lparr>scrollLock := scrollLock w - 1, log := log w @ [UnlockScreen x]\<rparr>"
    using st by (simp add: step_Disconnect)
  then show ?thesis
    using inv by (auto simp: first_render_def quietly_def)
qed

lemma first_render_run:
  "first_render d w \<Longrightarrow> run ls w = Some w' \<Longrightarrow> list_all (\<lambda>l. \<not> writes_open d l) ls
     \<Longrightarrow> first_render d w' \<and> quietly d w w'"
proof (induction ls arbitrary: w)
  case Nil
  then show ?case by (simp add: quietly_def)
next
  case (Cons l ls)
  then obtain w1 where 1: "step l w = Some w1" "run ls w1 = Some w'"
    by (auto split: option.splits)
  then have "first_render d w1 \<and> quietly d w w1"
    using Cons.prems first_render_step by simp
  moreover from this have "first_render d w' \<and> quietly d w1 w'"
    using Cons.IH [of w1] 1 Cons.prems by simp
  ultimately show ?case by (blast intro: quietly_trans)
qed

lemma render_cycle:
  assumes "\<not> hasUpdated (dialogs w d)" "open (dialogs w d)" "bar_has_body (dialogs w d)"
    "quiet d w" "owned w" "i = length (tasks w)" "k = length (timers w)"
  shows "run (render_sched d i k) w =
     Some (w\<lparr>dialogs := (dialogs w)(d := shown ((dialogs w d)\<lparr>hasUpdated := True\<rparr>) (activeElement w)),
             scrollLock := scrollLock w + 1,
             activeElement := Some (dialog_focus d (autofocus (dialogs w d))),
             tasks := tasks w @
               [\<lparr>t_dialog = d, t_hasUpdated = False, t_children = children (dialogs w d), t_pc = Returned\<rparr>],
             log := log w
                  @ [SetDisplay d ''flex'']
                  @ topAppBar_log d (topAppBarElements (dialogs w d))
                  @ [Activate d, LockScreen d]
                  @ map Animate (open_effects i d 0 (children (dialogs w d)))
                  @ [Focus (dialog_focus d (autofocus (dialogs w d)))]
                  @ map Finished (open_effects i d 0 (children (dialogs w d)))\<rparr>)"
  using assms
  by (simp add: render_sched_def sched owned_filter [where n = "length (tasks w)"])

section \<open>A toggle while the open run is in flight\<close>

lemma nth_two:
  "(xs @ [a, b]) ! length xs = a"
  "(xs @ [a, b]) ! Suc (length xs) = b"
  by (simp_all add: nth_append)

lemma update_two:
  "(xs @ [a, b])[length xs := c] = xs @ [c, b]"
  "(xs @ [a, b])[Suc (length xs) := c] = xs @ [a, c]"
  by (simp_all add: list_update_append)

lemma target_effects:
  "a \<in> set (effects i d dur kf cs) \<Longrightarrow> target a \<in> set (nodes d cs) \<and> owner a = i"
  by (auto simp: effects_def nodes_def)

lemma target_open_effects:
  "a \<in> set (open_effects i d dur cs) \<Longrightarrow> target a \<in> set (nodes d cs) \<and> owner a = i"
  by (auto simp: open_effects_def dest: target_effects) (auto simp: nodes_def)

lemma target_close_effects:
  "a \<in> set (close_effects i d dur cs) \<Longrightarrow> target a \<in> set (nodes d cs) \<and> owner a = i"
  by (auto simp: close_effects_def dest: target_effects) (auto simp: nodes_def)

lemma stop_open_effects:
  "filter (\<lambda>a. target a \<notin> set (nodes d cs)) (open_effects i d dur cs) = []"
  by (auto simp: filter_empty_conv dest: target_open_effects)

lemma stop_close_effects:
  "filter (\<lambda>a. target a \<notin> set (nodes d cs)) (close_effects i d dur cs) = []"
  by (auto simp: filter_empty_conv dest: target_close_effects)

lemma toggle_pre:
  assumes "hasUpdated (dialogs w d)" "\<not> open (dialogs w d)"
    "\<not> prevents w d ''open''" "\<not> prevents w d ''close''" "bar_has_body (dialogs w d)"
    "quiet d w" "i = length (tasks w)"
  shows "run [SetOpen d True, Resume i, Resume i, SetOpen d False, Resume (Suc i)] w =
     Some (w\<lparr>dialogs := (dialogs w)(d := (shown ((dialogs w d)\<lparr>open := True\<rparr>) (activeElement w))
                                  \<lparr>open := False, modalActive := False\<rparr>),
             scrollLock := scrollLock w + 1,
             tasks := tasks w @
               [\<lparr>t_dialog = d, t_hasUpdated = True, t_children = children (dialogs w d), t_pc = AwaitOpenRun\<rparr>,
                \<lparr>t_dialog = d, t_hasUpdated = True, t_children = children (dialogs w d), t_pc = AwaitStopClose\<rparr>],
             timers := timers w @ [FocusDialog d],
             log := log w
                  @ [Emit d \<lparr>ev_type = ''open'', cancelable = True, defaultPrevented = False\<rparr>,
                     SetDisplay d ''flex'']
                  @ topAppBar_log d (topAppBarElements (dialogs w d))
                  @ [Activate d, LockScreen d]
                  @ map Animate (open_effects i d (getDuration w ''medium4'') (children (dialogs w d)))
                  @ [Emit d \<lparr>ev_type = ''close'', cancelable = True, defaultPrevented = False\<rparr>,
                     Deactivate d]
                  @ map Cancel (cancelled (nodes d (children (dialogs w d)))
                      (animations w @ open_effects i d (getDuration w ''medium4'') (children (dialogs w d))))\<rparr>)"
  using assms
  by (simp add: sched nth_two update_two stop_open_effects)


lemma emitted_simps:
  "emitted d [] = []"
  "emitted d (a # as) = event_of d a @ emitted d as"
  "emitted d (as @ bs) = emitted d as @ emitted d bs"
  "emitted d (map Animate xs) = []"
  "emitted d (map Cancel xs) = []"
  "emitted d (map Finished xs) = []"
  "emitted d (topAppBar_log x ts) = []"
  by (auto simp: emitted_def topAppBar_log_def split: list.splits)

lemma started_simps:
  "started [] = []"
  "started (a # as) = started_of a @ started as"
  "started (as @ bs) = started as @ started bs"
  "started (map Animate xs) = xs"
  "started (map Cancel xs) = []"
  "started (map Finished xs) = []"
  "started (topAppBar_log x ts) = []"
  by (induction xs) (auto simp: started_def topAppBar_log_def split: list.splits)

lemma finished_simps:
  "finished [] = []"
  "finished (a # as) = finished_of a @ finished as"
  "finished (as @ bs) = finished as @ finished bs"
  "finished (map Animate xs) = []"
  "finished (map Cancel xs) = []"
  "finished (map Finished xs) = xs"
  "finished (topAppBar_log x ts) = []"
  by (induction xs) (auto simp: finished_def topAppBar_log_def split: list.splits)

lemma cancels_simps:
  "cancels [] = []"
  "cancels (a # as) = cancelled_of a @ cancels as"
  "cancels (as @ bs) = cancels as @ cancels bs"
  "cancels (map Animate xs) = []"
  "cancels (map Cancel xs) = xs"
  "cancels (map Finished xs) = []"
  "cancels (topAppBar_log x ts) = []"
  by (induction xs) (auto simp: cancels_def topAppBar_log_def split: list.splits)

lemmas projections = emitted_simps started_simps finished_simps cancels_simps

lemma cancelled_run:
  assumes "list_all (\<lambda>a. fst (target a) \<noteq> d) as"
  shows "set (cancelled (nodes d cs) (as @ open_effects i d dur cs)) = set (open_effects i d dur cs)"
  using assms by (auto simp: set_cancelled list_all_iff dest: fst_nodes target_open_effects)

lemma toggle_all:
  assumes "hasUpdated (dialogs w d)" "\<not> open (dialogs w d)"
    "\<not> prevents w d ''open''" "\<not> prevents w d ''close''" "bar_has_body (dialogs w d)"
    "quiet d w" "owned w" "i = length (tasks w)" "k \<le> 3"
  shows "\<exists>w'. run (toggle_sched d i k) w = Some w' \<and> toggled d i k w w'"
proof -
  let ?pre = "[SetOpen d True, Resume i, Resume i, SetOpen d False, Resume (Suc i)]"
  have pre: "run ?pre w = Some (w\<lparr>dialogs := (dialogs w)(d := (shown ((dialogs w d)\<lparr>open := True\<rparr>) (activeElement w))
                                  \<lparr>open := False, modalActive := False\<rparr>),
             scrollLock := scrollLock w + 1,
             tasks := tasks w @
               [\<lparr>t_dialog = d, t_hasUpdated = True, t_children = children (dialogs w d), t_pc = AwaitOpenRun\<rparr>,
                \<lparr>t_dialog = d, t_hasUpdated = True, t_children = children (dialogs w d), t_pc = AwaitStopClose\<rparr>],
             timers := timers w @ [FocusDialog d],
             log := log w
                  @ [Emit d \<lparr>ev_type = ''open'', cancelable = True, defaultPrevented = False\<rparr>,
                     SetDisplay d ''flex'']
                  @ topAppBar_log d (topAppBarElements (dialogs w d))
                  @ [Activate d, LockScreen d]
                  @ map Animate (open_effects i d (getDuration w ''medium4'') (children (dialogs w d)))
                  @ [Emit d \<lparr>ev_type = ''close'', cancelable = True, defaultPrevented = False\<rparr>,
                     Deactivate d]
                  @ map Cancel (cancelled (nodes d (children (dialogs w d)))
                      (animations w @ open_effects i d (getDuration w ''medium4'') (children (dialogs w d))))\<rparr>)"
    (is "_ = Some ?w3")
    using assms by (intro toggle_pre) simp_all
  have split: "run (toggle_sched d i k) w = run (drop 5 (toggle_sched d i k)) ?w3"
  proof -
    have "toggle_sched d i k = ?pre @ drop 5 (toggle_sched d i k)"
      by (simp add: toggle_sched_def)
    then have "run (toggle_sched d i k) w = run (?pre @ drop 5 (toggle_sched d i k)) w"
      by simp
    also have "\<dots> = run (drop 5 (toggle_sched d i k)) ?w3"
      by (simp only: run_append pre option.case)
    finally show ?thesis .
  qed
  have k: "k = 0 \<or> k = 1 \<or> k = 2 \<or> k = 3"
    using assms(9) by arith
  show ?thesis
    unfolding split
    using k
  proof (elim disjE)
    assume "k = 0"
    then show "\<exists>w'. run (drop 5 (toggle_sched d i k)) ?w3 = Some w' \<and> toggled d i k w w'"
      using assms(1-8)
      by (simp add: toggle_sched_def sched nth_two update_two stop_close_effects
            owned_filter [where n = "length (tasks w)"] toggled_def projections cancelled_run)
  next
    assume "k = 1"
    then show "\<exists>w'. run (drop 5 (toggle_sched d i k)) ?w3 = Some w' \<and> toggled d i k w w'"
      using assms(1-8)
      by (simp add: toggle_sched_def sched nth_two update_two stop_close_effects
            owned_filter [where n = "length (tasks w)"] toggled_def projections cancelled_run)
  next
    assume "k = 2"
    then show "\<exists>w'. run (drop 5 (toggle_sched d i k)) ?w3 = Some w' \<and> toggled d i k w w'"
      using assms(1-8)
      by (simp add: toggle_sched_def sched nth_two update_two stop_close_effects
            owned_filter [where n = "length (tasks w)"] toggled_def projections cancelled_run)
  next
    assume "k = 3"
    then show "\<exists>w'. run (drop 5 (toggle_sched d i k)) ?w3 = Some w' \<and> toggled d i k w w'"
      using assms(1-8)
      by (simp add: toggle_sched_def sched nth_two update_two stop_close_effects
            owned_filter [where n = "length (tasks w)"] toggled_def projections cancelled_run)
  qed
qed

section \<open>The claims\<close>

text \<open>
  C1: the flag of dialog \<open>d\<close> is set before its first render, and no call of its handler has
  been made yet. Then, whatever the schedule \<open>ls\<close> (first update, resumptions, other dialogs),
  as long as the flag is not written again, no event at all is dispatched on \<open>d\<close>, so neither
  \<^verbatim>\<open>open\<close> nor \<^verbatim>\<open>opened\<close>, and every effect started on a node of \<open>d\<close> has duration zero. When
  nothing runs on its nodes and the dialog has the body that its top app bar, if any, needs,
  the first render applies the open state: the display is \<^verbatim>\<open>flex\<close>,
  the trigger is recorded, the modal helper is active, the scroll lock is taken, and the open
  effects run with duration zero. The Fab, when \<^verbatim>\<open>extended\<close> is set before its first render,
  dispatches no event and starts no animation: it writes the width twice and only then enables
  the transition of the width.
\<close>

theorem C1_first_render:
  assumes "\<not> hasUpdated (dialogs w d)" "open (dialogs w d)"
    "list_all (\<lambda>t. t_dialog t \<noteq> d) (tasks w)"
  shows "(run ls w = Some w' \<and> list_all (\<lambda>l. \<not> writes_open d l) ls \<longrightarrow>
            (\<exists>new. log w' = log w @ new \<and> list_all (silent d) new))
     \<and> (quiet d w \<and> owned w \<and> bar_has_body (dialogs w d) \<longrightarrow>
          (\<exists>w1. run (render_sched d (length (tasks w)) (length (timers w))) w = Some w1
             \<and> display (dialogs w1 d) = ''flex'' \<and> modalActive (dialogs w1 d)
             \<and> originalTrigger (dialogs w1 d) = activeElement w
             \<and> scrollLock w1 = scrollLock w + 1
             \<and> log w1 = log w
                  @ [SetDisplay d ''flex'']
                  @ topAppBar_log d (topAppBarElements (dialogs w d))
                  @ [Activate d, LockScreen d]
                  @ map Animate (open_effects (length (tasks w)) d 0 (children (dialogs w d)))
                  @ [Focus (dialog_focus d (autofocus (dialogs w d)))]
                  @ map Finished (open_effects (length (tasks w)) d 0 (children (dialogs w d)))))
     \<and> onExtendedChange False sw1 sw2 \<lparr>extended = True, width = wd, transitionProperty = tp\<rparr> =
          (\<lparr>extended = True, width = Some sw2,
            transitionProperty = ''box-shadow, width, bottom, transform''\<rparr>,
           [StyleWidth (Some sw1), StyleWidth (Some sw2),
            StyleTransitionProperty ''box-shadow, width, bottom, transform''])"
proof -
  have inv: "first_render d w"
    using assms(2,3) by (auto simp: first_render_def first_call_def list_all_iff)
  have 1: "run ls w = Some w' \<and> list_all (\<lambda>l. \<not> writes_open d l) ls \<longrightarrow>
            (\<exists>new. log w' = log w @ new \<and> list_all (silent d) new)"
    using first_render_run [OF inv, of ls w'] by (auto simp: quietly_def)
  have 2: "quiet d w \<and> owned w \<and> bar_has_body (dialogs w d) \<longrightarrow>
          (\<exists>w1. run (render_sched d (length (tasks w)) (length (timers w))) w = Some w1
             \<and> display (dialogs w1 d) = ''flex'' \<and> modalActive (dialogs w1 d)
             \<and> originalTrigger (dialogs w1 d) = activeElement w
             \<and> scrollLock w1 = scrollLock w + 1
             \<and> log w1 = log w
                  @ [SetDisplay d ''flex'']
                  @ topAppBar_log d (topAppBarElements (dialogs w d))
                  @ [Activate d, LockScreen d]
                  @ map Animate (open_effects (length (tasks w)) d 0 (children (dialogs w d)))
                  @ [Focus (dialog_focus d (autofocus (dialogs w d)))]
                  @ map Finished (open_effects (length (tasks w)) d 0 (children (dialogs w d))))"
    using assms(1,2) by (auto simp: render_cycle shown_def)
  have 3: "onExtendedChange False sw1 sw2 \<lparr>extended = True, width = wd, transitionProperty = tp\<rparr> =
          (\<lparr>extended = True, width = Some sw2,
            transitionProperty = ''box-shadow, width, bottom, transform''\<rparr>,
           [StyleWidth (Some sw1), StyleWidth (Some sw2),
            StyleTransitionProperty ''box-shadow, width, bottom, transform''])"
    by (simp add: onExtendedChange_def)
  show ?thesis using 1 2 3 by blast
qed

theorem C1_first_render_witness:
  "\<not> hasUpdated (dialogs world_new 0) \<and> open (dialogs world_new 0)
   \<and> list_all (\<lambda>t. t_dialog t \<noteq> 0) (tasks world_new)
   \<and> quiet 0 world_new \<and> owned world_new \<and> bar_has_body (dialogs world_new 0)
   \<and> list_all (\<lambda>l. \<not> writes_open 0 l) (render_sched 0 0 0)
   \<and> (\<exists>w1. run (render_sched 0 0 0) world_new = Some w1
        \<and> list_all (silent 0) (log w1)
        \<and> display (dialogs w1 0) = ''flex'' \<and> scrollLock w1 = 1
        \<and> notices w1 = [Focus (PanelOf 0)])"
proof -
  have h: "\<not> hasUpdated (dialogs world_new 0)" "open (dialogs world_new 0)"
    "list_all (\<lambda>t. t_dialog t \<noteq> 0) (tasks world_new)" "quiet 0 world_new" "owned world_new"
    "list_all (\<lambda>l. \<not> writes_open 0 l) (render_sched 0 0 0)" "bar_has_body (dialogs world_new 0)"
    by (simp_all add: world_new_def world0_def dialog0_def quiet_def owned_def render_sched_def
          bar_has_body_def)
  have l: "length (tasks world_new) = 0" "length (timers world_new) = 0" "log world_new = []"
    by (simp_all add: world_new_def world0_def)
  from C1_first_render [OF h(1,2,3), of _ _ 0 0 None "[]"] h(4,5,7)
  obtain w1 where 1: "run (render_sched 0 0 0) world_new = Some w1"
    "display (dialogs w1 0) = ''flex''" "scrollLock w1 = scrollLock world_new + 1"
    "log w1 = log world_new
                  @ [SetDisplay 0 ''flex'']
                  @ topAppBar_log 0 (topAppBarElements (dialogs world_new 0))
                  @ [Activate 0, LockScreen 0]
                  @ map Animate (open_effects 0 0 0 (children (dialogs world_new 0)))
                  @ [Focus (dialog_focus 0 (autofocus (dialogs world_new 0)))]
                  @ map Finished (open_effects 0 0 0 (children (dialogs world_new 0)))"
    unfolding l by blast
  from C1_first_render [OF h(1,2,3), of "render_sched 0 0 0" w1 0 0 None "[]"] 1(1) h(6)
  have 2: "list_all (silent 0) (log w1)"
    by (auto simp: l)
  have 3: "notices w1 = [Focus (PanelOf 0)]" "scrollLock w1 = 1"
    using 1(3) unfolding notices_def 1(4)
    by (simp_all add: world_new_def world0_def dialog0_def topAppBar_log_def open_effects_def effects_def
          dialog_focus_def)
  show ?thesis using h 1(1,2) 2 3 by blast
qed

text \<open>
  C2: after the first render, when the flag is set and a listener cancels the \<^verbatim>\<open>open\<close> event,
  the handler returns at once: the dialog is as before but for the flag, which stays true (so
  the display style and the state of the modal helper are unchanged), no effect is started or
  stopped, the scroll lock, the focus and the pending callbacks are untouched, the only action
  is the dispatch of the prevented event, and the handler has returned.
\<close>

theorem C2_open_vetoed:
  assumes "hasUpdated (dialogs w d)" "\<not> open (dialogs w d)" "prevents w d ''open''"
    "i = length (tasks w)"
  shows "\<exists>w'. run [SetOpen d True, Resume i] w = Some w'
     \<and> dialogs w' = (dialogs w)(d := (dialogs w d)\<lparr>open := True\<rparr>)
     \<and> animations w' = animations w \<and> timers w' = timers w
     \<and> scrollLock w' = scrollLock w \<and> activeElement w' = activeElement w
     \<and> log w' = log w @ [Emit d \<lparr>ev_type = ''open'', cancelable = True, defaultPrevented = True\<rparr>]
     \<and> t_pc (tasks w' ! i) = Returned \<and> step (Resume i) w' = None"
  using assms
  by (simp add: steps at_body_def) (simp add: step_def resume_def)

theorem C2_open_vetoed_witness:
  "hasUpdated (dialogs world_veto 0) \<and> \<not> open (dialogs world_veto 0) \<and> prevents world_veto 0 ''open''
   \<and> (\<exists>w'. run [SetOpen 0 True, Resume 0] world_veto = Some w'
        \<and> open (dialogs w' 0) \<and> display (dialogs w' 0) = display (dialogs world_veto 0)
        \<and> animations w' = [] \<and> scrollLock w' = 0
        \<and> log w' = [Emit 0 \<lparr>ev_type = ''open'', cancelable = True, defaultPrevented = True\<rparr>])"
  using C2_open_vetoed [of world_veto 0 0]
  by (auto simp: world_veto_def world0_def dialog0_def)

text \<open>
  C3 (as stated, refuted): the flag is set and cleared again while the open run is in flight
  (the run of task 0 is not settled after the first three steps); \<^verbatim>\<open>opened\<close> is dispatched all
  the same. And when the effects of the open run finish after the flag is cleared (the run is
  not settled then) but before the close handler has passed \<^verbatim>\<open>whenDefined()\<close>, \<^verbatim>\<open>opened\<close> is
  dispatched and no effect is cancelled.
\<close>

theorem C3_counterexample:
  "map_option (settled 0) (run [SetOpen 0 True, Resume 0, Resume 0] world0) = Some False
   \<and> map_option (emitted 0 \<circ> log) (run (toggle_sched 0 0 0) world0)
       = Some [''open'', ''close'', ''opened'', ''closed'']
   \<and> map_option (settled 0) (run [SetOpen 0 True, Resume 0, Resume 0, SetOpen 0 False] world0)
       = Some False
   \<and> map_option (emitted 0 \<circ> log)
       (run ([SetOpen 0 True, Resume 0, Resume 0, SetOpen 0 False, Settle 0, Resume 0]
             @ [Resume 1, Resume 1, Settle 1, Resume 1]) world0)
       = Some [''open'', ''opened'', ''close'', ''closed'']
   \<and> map_option (cancels \<circ> log)
       (run ([SetOpen 0 True, Resume 0, Resume 0, SetOpen 0 False, Settle 0, Resume 0]
             @ [Resume 1, Resume 1, Settle 1, Resume 1]) world0)
       = Some []"
  by code_simp

text \<open>
  C3 (amended): a rendered, closed dialog on whose nodes nothing runs, with the body that its
  top app bar, if any, needs, no listener preventing. The flag is set, the open run starts, the
  flag is cleared, and the close handler reaches its halt while the effects of the open run are
  still running (none has finished). Then the close handler cancels the open run (exactly its
  effects are cancelled, none of them finishes), the open handler is resumed by this
  cancellation and dispatches \<^verbatim>\<open>opened\<close> once (after \<^verbatim>\<open>close\<close>; before \<^verbatim>\<open>closed\<close> unless it is
  resumed last), the close run runs to completion, and in the end the dialog is closed and
  hidden, nothing new is running, the scroll lock is released and both handlers have returned.
  This holds wherever the open handler is resumed among the three remaining steps of the close
  handler (the number \<open>k\<close> of those that come before it).
\<close>

theorem C3_toggle:
  assumes "hasUpdated (dialogs w d)" "\<not> open (dialogs w d)"
    "\<not> prevents w d ''open''" "\<not> prevents w d ''close''" "bar_has_body (dialogs w d)"
    "quiet d w" "owned w" "i = length (tasks w)" "k \<le> 3"
  shows "(\<exists>w0. run [SetOpen d True, Resume i, Resume i, SetOpen d False] w = Some w0
            \<and> \<not> settled i w0 \<and> at_body w0 (Suc i)
            \<and> finished (drop (length (log w)) (log w0)) = [])
     \<and> (\<exists>w'. run (toggle_sched d i k) w = Some w'
          \<and> emitted d (drop (length (log w)) (log w')) =
               (if k < 3 then [''open'', ''close'', ''opened'', ''closed'']
                else [''open'', ''close'', ''closed'', ''opened''])
          \<and> started (drop (length (log w)) (log w')) =
               open_effects i d (getDuration w ''medium4'') (children (dialogs w d))
               @ close_effects (Suc i) d (getDuration w ''short4'') (children (dialogs w d))
          \<and> set (cancels (drop (length (log w)) (log w'))) =
               set (open_effects i d (getDuration w ''medium4'') (children (dialogs w d)))
          \<and> finished (drop (length (log w)) (log w')) =
               close_effects (Suc i) d (getDuration w ''short4'') (children (dialogs w d))
          \<and> \<not> open (dialogs w' d) \<and> display (dialogs w' d) = ''none''
          \<and> \<not> modalActive (dialogs w' d)
          \<and> animations w' = animations w \<and> scrollLock w' = scrollLock w
          \<and> t_pc (tasks w' ! i) = Returned \<and> t_pc (tasks w' ! Suc i) = Returned)"
proof -
  have "\<exists>w0. run [SetOpen d True, Resume i, Resume i, SetOpen d False] w = Some w0
            \<and> \<not> settled i w0 \<and> at_body w0 (Suc i)
            \<and> finished (drop (length (log w)) (log w0)) = []"
    using assms(1-8) by (simp add: sched owner_open_effects nth_two projections)
  moreover have "\<exists>w'. run (toggle_sched d i k) w = Some w' \<and> toggled d i k w w'"
    using assms by (rule toggle_all)
  ultimately show ?thesis
    unfolding toggled_def by blast
qed

theorem C3_toggle_witness:
  "hasUpdated (dialogs world0 0) \<and> \<not> open (dialogs world0 0)
   \<and> \<not> prevents world0 0 ''open'' \<and> \<not> prevents world0 0 ''close''
   \<and> bar_has_body (dialogs world0 0)
   \<and> quiet 0 world0 \<and> owned world0 \<and> (0::nat) \<le> 3
   \<and> (\<exists>w'. run (toggle_sched 0 0 0) world0 = Some w'
        \<and> emitted 0 (log w') = [''open'', ''close'', ''opened'', ''closed'']
        \<and> finished (log w') = close_effects 1 0 200 [Child 0, Child 1]
        \<and> \<not> open (dialogs w' 0) \<and> display (dialogs w' 0) = ''none'')"
  using C3_toggle [of world0 0 0 0]
  by (simp add: world0_def dialog0_def quiet_def owned_def bar_has_body_def) blast

text \<open>
  C4 (as stated, refuted): in an undisturbed open and close of dialog 0, \<^verbatim>\<open>closed\<close> is
  dispatched before the focus goes back to the trigger \<open>Outside 7\<close>, not after it.
\<close>

theorem C4_counterexample:
  "map_option notices (run (open_sched 0 0 0 @ close_sched 0 1 @ [Timer 0]) world0)
   = Some [Emit 0 \<lparr>ev_type = ''open'', cancelable = True, defaultPrevented = False\<rparr>,
           Focus (PanelOf 0),
           Emit 0 \<lparr>ev_type = ''opened'', cancelable = False, defaultPrevented = False\<rparr>,
           Emit 0 \<lparr>ev_type = ''close'', cancelable = True, defaultPrevented = False\<rparr>,
           Emit 0 \<lparr>ev_type = ''closed'', cancelable = False, defaultPrevented = False\<rparr>,
           Focus (Outside 7)]"
  by code_simp

text \<open>
  C4 (amended): for a handler called after the first render. In the step that enters the body,
  the dispatch of the cancelable intent event (\<^verbatim>\<open>open\<close> or \<^verbatim>\<open>close\<close>) is the first action, before
  any other. The step that dispatches \<^verbatim>\<open>opened\<close> is possible only once the open run is settled
  and does nothing else. The step that dispatches \<^verbatim>\<open>closed\<close> is possible only once the close
  run is settled; it hides the dialog, releases the scroll lock, schedules the focus call
  and dispatches \<^verbatim>\<open>closed\<close> last, the focus being unchanged; the focus call is a callback that
  runs in a later step, after \<^verbatim>\<open>closed\<close>.
\<close>

theorem C4_order:
  assumes "i < length (tasks w)" "t_hasUpdated (tasks w ! i)" "t_dialog (tasks w ! i) = d"
    "step (Resume i) w = Some w'"
  shows "(t_pc (tasks w ! i) = AwaitDefined \<longrightarrow>
            (\<exists>rest. log w' = log w
               @ Emit d \<lparr>ev_type = (if open (dialogs w d) then ''open'' else ''close''),
                          cancelable = True,
                          defaultPrevented = prevents w d (if open (dialogs w d) then ''open'' else ''close'')\<rparr>
               # rest))
     \<and> (t_pc (tasks w ! i) = AwaitOpenRun \<longrightarrow>
            settled i w
          \<and> log w' = log w @ [Emit d \<lparr>ev_type = ''opened'', cancelable = False, defaultPrevented = False\<rparr>])
     \<and> (t_pc (tasks w ! i) = AwaitCloseRun \<longrightarrow>
            settled i w
          \<and> log w' = log w @ [SetDisplay d ''none'', UnlockScreen d,
                     Emit d \<lparr>ev_type = ''closed'', cancelable = False, defaultPrevented = False\<rparr>]
          \<and> timers w' = timers w @ restore (hasFocusFn w) (originalTrigger (dialogs w d))
          \<and> activeElement w' = activeElement w)
     \<and> (k < length (timers v) \<and> timers v ! k = FocusTrigger e \<longrightarrow>
            (\<exists>v'. step (Timer k) v = Some v' \<and> log v' = log v @ [Focus e] \<and> activeElement v' = Some e))"
proof -
  have a: "\<exists>rest. log w' = log w
               @ Emit d \<lparr>ev_type = (if open (dialogs w d) then ''open'' else ''close''),
                          cancelable = True,
                          defaultPrevented = prevents w d (if open (dialogs w d) then ''open'' else ''close'')\<rparr>
               # rest"
    if p: "t_pc (tasks w ! i) = AwaitDefined"
  proof -
    have ab: "at_body w i"
      using assms(1,2) p by (simp add: at_body_def)
    show ?thesis
    proof (cases "open (dialogs w d)")
      case True
      then show ?thesis
        using assms(2,3,4) resume_open_veto [OF ab assms(3)] resume_open_request [OF ab assms(3)]
          resume_open_throw [OF ab assms(3)]
        by (cases "prevents w d ''open''"; cases "bar_has_body (dialogs w d)") auto
    next
      case False
      then show ?thesis
        using assms(2,3,4) resume_close_veto [OF ab assms(3)] resume_close_request [OF ab assms(3)]
        by (cases "prevents w d ''close''") auto
    qed
  qed
  have b: "settled i w
          \<and> log w' = log w @ [Emit d \<lparr>ev_type = ''opened'', cancelable = False, defaultPrevented = False\<rparr>]"
    if p: "t_pc (tasks w ! i) = AwaitOpenRun"
    using assms(2,3,4) resume_open_done [OF assms(1) p] by (auto split: if_splits)
  have c: "settled i w
          \<and> log w' = log w @ [SetDisplay d ''none'', UnlockScreen d,
                     Emit d \<lparr>ev_type = ''closed'', cancelable = False, defaultPrevented = False\<rparr>]
          \<and> timers w' = timers w @ restore (hasFocusFn w) (originalTrigger (dialogs w d))
          \<and> activeElement w' = activeElement w"
    if p: "t_pc (tasks w ! i) = AwaitCloseRun"
    using assms(4) resume_close_done [OF assms(1) p assms(3)] by (auto split: if_splits)
  have e: "\<exists>v'. step (Timer k) v = Some v' \<and> log v' = log v @ [Focus e] \<and> activeElement v' = Some e"
    if "k < length (timers v)" "timers v ! k = FocusTrigger e"
    using that by (simp add: step_Timer)
  show ?thesis using a b c e by blast
qed

theorem C4_order_witness:
  "1 < length (tasks world_closing) \<and> t_hasUpdated (tasks world_closing ! 1)
   \<and> t_dialog (tasks world_closing ! 1) = 0 \<and> t_pc (tasks world_closing ! 1) = AwaitCloseRun
   \<and> (\<exists>w'. step (Resume 1) world_closing = Some w'
        \<and> settled 1 world_closing
        \<and> log w' = log world_closing @ [SetDisplay 0 ''none'', UnlockScreen 0,
                     Emit 0 \<lparr>ev_type = ''closed'', cancelable = False, defaultPrevented = False\<rparr>]
        \<and> timers w' = timers world_closing
             @ restore (hasFocusFn world_closing) (originalTrigger (dialogs world_closing 0)))
   \<and> restore (hasFocusFn world_closing) (originalTrigger (dialogs world_closing 0))
        = [FocusTrigger (Outside 7)]"
proof -
  have h: "1 < length (tasks world_closing)" "t_hasUpdated (tasks world_closing ! 1)"
    "t_dialog (tasks world_closing ! 1) = 0" "t_pc (tasks world_closing ! 1) = AwaitCloseRun"
    "\<not> Option.is_none (step (Resume 1) world_closing)"
    "restore (hasFocusFn world_closing) (originalTrigger (dialogs world_closing 0))
        = [FocusTrigger (Outside 7)]"
    by code_simp+
  then obtain w' where w': "step (Resume 1) world_closing = Some w'"
    by (auto simp: Option.is_none_def)
  show ?thesis
    using C4_order [OF h(1,2,3) w', of 0 world_closing "Outside 7"] h w'
    by simp
qed

text \<open>
  C5: a rendered, closed dialog on whose nodes nothing runs, with the body that its top app
  bar, if any, needs, no listener preventing, the focus
  on an element \<open>e\<close> that has a focus function. Setting \<^verbatim>\<open>open = true\<close> dispatches the
  cancelable \<^verbatim>\<open>open\<close>, applies the open state, runs the open effects and, once they have
  finished, dispatches \<^verbatim>\<open>opened\<close>; setting \<^verbatim>\<open>open = false\<close> dispatches the cancelable
  \<^verbatim>\<open>close\<close>, runs the close effects and, once they have finished, hides the dialog, releases
  the scroll lock and dispatches \<^verbatim>\<open>closed\<close>; the pending callback then gives the focus back
  to \<open>e\<close>.
\<close>

theorem C5_dialog_cycle:
  assumes "hasUpdated (dialogs w d)" "\<not> open (dialogs w d)"
    "\<not> prevents w d ''open''" "\<not> prevents w d ''close''" "bar_has_body (dialogs w d)"
    "quiet d w" "owned w" "activeElement w = Some e" "hasFocusFn w e"
    "i = length (tasks w)" "k = length (timers w)"
  shows "\<exists>w'. run (open_sched d i k @ close_sched d (Suc i) @ [Timer k]) w = Some w'
     \<and> log w' = log w
          @ [Emit d \<lparr>ev_type = ''open'', cancelable = True, defaultPrevented = False\<rparr>,
             SetDisplay d ''flex'']
          @ topAppBar_log d (topAppBarElements (dialogs w d))
          @ [Activate d, LockScreen d]
          @ map Animate (open_effects i d (getDuration w ''medium4'') (children (dialogs w d)))
          @ [Focus (dialog_focus d (autofocus (dialogs w d)))]
          @ map Finished (open_effects i d (getDuration w ''medium4'') (children (dialogs w d)))
          @ [Emit d \<lparr>ev_type = ''opened'', cancelable = False, defaultPrevented = False\<rparr>,
             Emit d \<lparr>ev_type = ''close'', cancelable = True, defaultPrevented = False\<rparr>,
             Deactivate d]
          @ map Animate (close_effects (Suc i) d (getDuration w ''short4'') (children (dialogs w d)))
          @ map Finished (close_effects (Suc i) d (getDuration w ''short4'') (children (dialogs w d)))
          @ [SetDisplay d ''none'', UnlockScreen d,
             Emit d \<lparr>ev_type = ''closed'', cancelable = False, defaultPrevented = False\<rparr>,
             Focus e]
     \<and> activeElement w' = Some e
     \<and> \<not> open (dialogs w' d) \<and> display (dialogs w' d) = ''none''"
proof -
  let ?w1 = "w\<lparr>dialogs := (dialogs w)(d := shown ((dialogs w d)\<lparr>open := True\<rparr>) (activeElement w)),
             scrollLock := scrollLock w + 1,
             activeElement := Some (dialog_focus d (autofocus (dialogs w d))),
             tasks := tasks w @
               [\<lparr>t_dialog = d, t_hasUpdated = True, t_children = children (dialogs w d), t_pc = Returned\<rparr>],
             log := log w
                  @ [Emit d \<lparr>ev_type = ''open'', cancelable = True, defaultPrevented = False\<rparr>,
                     SetDisplay d ''flex'']
                  @ topAppBar_log d (topAppBarElements (dialogs w d))
                  @ [Activate d, LockScreen d]
                  @ map Animate (open_effects i d (getDuration w ''medium4'') (children (dialogs w d)))
                  @ [Focus (dialog_focus d (autofocus (dialogs w d)))]
                  @ map Finished (open_effects i d (getDuration w ''medium4'') (children (dialogs w d)))
                  @ [Emit d \<lparr>ev_type = ''opened'', cancelable = False, defaultPrevented = False\<rparr>]\<rparr>"
  have 1: "run (open_sched d i k) w = Some ?w1"
    using assms by (intro open_cycle) simp_all
  have 2: "run (close_sched d (Suc i)) ?w1 = Some (?w1
      \<lparr>dialogs := (dialogs ?w1)(d := (dialogs ?w1 d)\<lparr>open := False, modalActive := False, display := ''none''\<rparr>),
             scrollLock := scrollLock ?w1 - 1,
             tasks := tasks ?w1 @
               [\<lparr>t_dialog = d, t_hasUpdated = True, t_children = children (dialogs ?w1 d), t_pc = Returned\<rparr>],
             timers := timers ?w1 @ restore (hasFocusFn ?w1) (originalTrigger (dialogs ?w1 d)),
             log := log ?w1
                  @ [Emit d \<lparr>ev_type = ''close'', cancelable = True, defaultPrevented = False\<rparr>,
                     Deactivate d]
                  @ map Animate (close_effects (Suc i) d (getDuration ?w1 ''short4'') (children (dialogs ?w1 d)))
                  @ map Finished (close_effects (Suc i) d (getDuration ?w1 ''short4'') (children (dialogs ?w1 d)))
                  @ [SetDisplay d ''none'', UnlockScreen d,
                     Emit d \<lparr>ev_type = ''closed'', cancelable = False, defaultPrevented = False\<rparr>]\<rparr>)"
    (is "_ = Some ?w2")
    using assms
    by (intro close_cycle) (simp_all add: shown_def quiet_def owned_def owned_mono [where n = "length (tasks w)"])
  have 3: "run (open_sched d i k @ close_sched d (Suc i) @ [Timer k]) w = run [Timer k] ?w2"
    by (simp only: run_append 1 2 option.case)
  show ?thesis
    unfolding 3 using assms
    by (simp add: step_Timer shown_def restore_def)
qed


theorem C5_dialog_cycle_witness:
  "hasUpdated (dialogs world_bar 0) \<and> \<not> open (dialogs world_bar 0)
   \<and> \<not> prevents world_bar 0 ''open'' \<and> \<not> prevents world_bar 0 ''close''
   \<and> topAppBarElements (dialogs world_bar 0) \<noteq> [] \<and> bar_has_body (dialogs world_bar 0)
   \<and> quiet 0 world_bar \<and> owned world_bar \<and> activeElement world_bar = Some (Outside 7)
   \<and> hasFocusFn world_bar (Outside 7)
   \<and> (\<exists>w'. run (open_sched 0 0 0 @ close_sched 0 1 @ [Timer 0]) world_bar = Some w'
        \<and> notices w' =
            [Emit 0 \<lparr>ev_type = ''open'', cancelable = True, defaultPrevented = False\<rparr>,
             Focus (PanelOf 0),
             Emit 0 \<lparr>ev_type = ''opened'', cancelable = False, defaultPrevented = False\<rparr>,
             Emit 0 \<lparr>ev_type = ''close'', cancelable = True, defaultPrevented = False\<rparr>,
             Emit 0 \<lparr>ev_type = ''closed'', cancelable = False, defaultPrevented = False\<rparr>,
             Focus (Outside 7)]
        \<and> activeElement w' = Some (Outside 7))"
  using C5_dialog_cycle [of world_bar 0 "Outside 7" 0 0]
  by (auto simp: world_bar_def world0_def dialog0_def quiet_def owned_def notices_def open_effects_def
        close_effects_def effects_def topAppBar_log_def dialog_focus_def bar_has_body_def)

text \<open>
  C6 (the code at the failing input): the bar is shown, a listener of \<^verbatim>\<open>hide\<close> calls
  \<^verbatim>\<open>preventDefault()\<close>, and the page scrolls down past the threshold. The event is dispatched
  without \<^verbatim>\<open>cancelable: true\<close>, so it is not cancelable, the listener's call has no effect and
  the bar is hidden all the same.
\<close>

theorem C6_hide_not_cancelable:
  "runScrollThreshold (\<lambda>t. t = ''hide'') False \<lparr>hide = False, fabDetach = False\<rparr>
     = (\<lparr>hide = True, fabDetach = False\<rparr>,
        [\<lparr>ev_type = ''hide'', cancelable = False, defaultPrevented = False\<rparr>])"
  by (simp add: runScrollThreshold_def emit_def)

text \<open>
  C7: two rendered, closed dialogs \<open>d1\<close> and \<open>d2\<close>, each with the body that its top app bar, if
  any, needs, nothing locked. Opening \<open>d1\<close> and then
  \<open>d2\<close> brings the counter to 1 and to 2; closing one of them (\<open>a\<close>) while the other (\<open>b\<close>) is
  still open brings it to 1, so the document stays locked; closing the other brings it to 0,
  and the document is unlocked.
\<close>

theorem C7_scroll_lock_composes:
  assumes "d1 \<noteq> d2"
    and d1: "hasUpdated (dialogs w d1)" "\<not> open (dialogs w d1)"
      "\<not> prevents w d1 ''open''" "\<not> prevents w d1 ''close''" "quiet d1 w"
      "bar_has_body (dialogs w d1)"
    and d2: "hasUpdated (dialogs w d2)" "\<not> open (dialogs w d2)"
      "\<not> prevents w d2 ''open''" "\<not> prevents w d2 ''close''" "quiet d2 w"
      "bar_has_body (dialogs w d2)"
    and w: "owned w" "scrollLock w = 0" "i = length (tasks w)" "k = length (timers w)"
    and ab: "a = d1 \<and> b = d2 \<or> a = d2 \<and> b = d1"
  shows "\<exists>w1 w2 w3 w4.
       run (open_sched d1 i k) w = Some w1 \<and> scrollLock w1 = 1
     \<and> run (open_sched d2 (Suc i) k) w1 = Some w2 \<and> scrollLock w2 = 2
     \<and> run (close_sched a (Suc (Suc i))) w2 = Some w3 \<and> scrollLock w3 = 1
     \<and> open (dialogs w3 b) \<and> locked w3
     \<and> run (close_sched b (Suc (Suc (Suc i)))) w3 = Some w4 \<and> scrollLock w4 = 0
     \<and> \<not> locked w4"
proof -
  have "\<exists>w'. run (open_sched d1 i k) w = Some w'
     \<and> scrollLock w' = scrollLock w + 1
     \<and> open (dialogs w' d1) \<and> hasUpdated (dialogs w' d1)
     \<and> (\<forall>x. x \<noteq> d1 \<longrightarrow> dialogs w' x = dialogs w x)
     \<and> animations w' = animations w \<and> timers w' = timers w \<and> prevents w' = prevents w
     \<and> length (tasks w') = Suc (length (tasks w))"
    by (rule open_cycle_lock) (fact d1 w)+
  then obtain w1 where 1: "run (open_sched d1 i k) w = Some w1" "scrollLock w1 = scrollLock w + 1"
    "open (dialogs w1 d1)" "hasUpdated (dialogs w1 d1)"
    "\<forall>x. x \<noteq> d1 \<longrightarrow> dialogs w1 x = dialogs w x"
    "animations w1 = animations w" "timers w1 = timers w" "prevents w1 = prevents w"
    "length (tasks w1) = Suc (length (tasks w))"
    by blast
  have e1: "dialogs w1 d2 = dialogs w d2"
    using 1(5) assms(1) by simp
  have q1: "quiet d1 w1" "quiet d2 w1" "owned w1"
    using 1(6,9) d1(5) d2(5) w(1) by (simp_all add: quiet_def owned_def owned_mono [where n = "length (tasks w)"])
  have "\<exists>w'. run (open_sched d2 (Suc i) k) w1 = Some w'
     \<and> scrollLock w' = scrollLock w1 + 1
     \<and> open (dialogs w' d2) \<and> hasUpdated (dialogs w' d2)
     \<and> (\<forall>x. x \<noteq> d2 \<longrightarrow> dialogs w' x = dialogs w1 x)
     \<and> animations w' = animations w1 \<and> timers w' = timers w1 \<and> prevents w' = prevents w1
     \<and> length (tasks w') = Suc (length (tasks w1))"
    using d2 w 1(7,8,9) q1 by (intro open_cycle_lock) (simp_all add: e1)
  then obtain w2 where 2: "run (open_sched d2 (Suc i) k) w1 = Some w2" "scrollLock w2 = scrollLock w1 + 1"
    "open (dialogs w2 d2)" "hasUpdated (dialogs w2 d2)"
    "\<forall>x. x \<noteq> d2 \<longrightarrow> dialogs w2 x = dialogs w1 x"
    "animations w2 = animations w1" "prevents w2 = prevents w1"
    "length (tasks w2) = Suc (length (tasks w1))"
    by blast
  have e2: "dialogs w2 d1 = dialogs w1 d1"
    using 2(5) assms(1) by simp
  have q2: "quiet d1 w2" "quiet d2 w2" "owned w2"
    using 2(6,8) q1 by (simp_all add: quiet_def owned_def owned_mono [where n = "length (tasks w1)"])
  have o2: "open (dialogs w2 a)" "open (dialogs w2 b)" "hasUpdated (dialogs w2 a)" "hasUpdated (dialogs w2 b)"
    "\<not> prevents w2 a ''close''" "\<not> prevents w2 b ''close''" "quiet a w2" "quiet b w2" "a \<noteq> b"
    using ab 1(3,4,8) 2(3,4,7) e2 q2 d1(4) d2(4) assms(1) by auto
  have "\<exists>w'. run (close_sched a (Suc (Suc i))) w2 = Some w'
     \<and> scrollLock w' = scrollLock w2 - 1
     \<and> \<not> open (dialogs w' a) \<and> hasUpdated (dialogs w' a) \<and> display (dialogs w' a) = ''none''
     \<and> (\<forall>x. x \<noteq> a \<longrightarrow> dialogs w' x = dialogs w2 x)
     \<and> animations w' = animations w2 \<and> prevents w' = prevents w2
     \<and> length (tasks w') = Suc (length (tasks w2))"
    using o2 q2(3) w(3) 1(9) 2(8) by (intro close_cycle_frame) simp_all
  then obtain w3 where 3: "run (close_sched a (Suc (Suc i))) w2 = Some w3" "scrollLock w3 = scrollLock w2 - 1"
    "\<forall>x. x \<noteq> a \<longrightarrow> dialogs w3 x = dialogs w2 x"
    "animations w3 = animations w2" "prevents w3 = prevents w2"
    "length (tasks w3) = Suc (length (tasks w2))"
    by blast
  have e3: "dialogs w3 b = dialogs w2 b"
    using 3(3) o2(9) by simp
  have q3: "quiet b w3" "owned w3"
    using 3(4,6) o2(8) q2(3) by (simp_all add: quiet_def owned_def owned_mono [where n = "length (tasks w2)"])
  have "\<exists>w'. run (close_sched b (Suc (Suc (Suc i)))) w3 = Some w'
     \<and> scrollLock w' = scrollLock w3 - 1
     \<and> \<not> open (dialogs w' b) \<and> hasUpdated (dialogs w' b) \<and> display (dialogs w' b) = ''none''
     \<and> (\<forall>x. x \<noteq> b \<longrightarrow> dialogs w' x = dialogs w3 x)
     \<and> animations w' = animations w3 \<and> prevents w' = prevents w3
     \<and> length (tasks w') = Suc (length (tasks w3))"
    using o2 q3 w(3) 1(9) 2(8) 3(5,6) by (intro close_cycle_frame) (simp_all add: e3)
  then obtain w4 where 4: "run (close_sched b (Suc (Suc (Suc i)))) w3 = Some w4" "scrollLock w4 = scrollLock w3 - 1"
    by blast
  have "run (open_sched d1 i k) w = Some w1 \<and> scrollLock w1 = 1
     \<and> run (open_sched d2 (Suc i) k) w1 = Some w2 \<and> scrollLock w2 = 2
     \<and> run (close_sched a (Suc (Suc i))) w2 = Some w3 \<and> scrollLock w3 = 1
     \<and> open (dialogs w3 b) \<and> locked w3
     \<and> run (close_sched b (Suc (Suc (Suc i)))) w3 = Some w4 \<and> scrollLock w4 = 0
     \<and> \<not> locked w4"
    using 1(1,2) 2(1,2) 3(1,2) 4 w(2) o2(2) e3 by (simp add: locked_def)
  then show ?thesis by blast
qed

theorem C7_scroll_lock_composes_witness:
  "(0::nat) \<noteq> 1
   \<and> hasUpdated (dialogs world0 0) \<and> \<not> open (dialogs world0 0)
   \<and> \<not> prevents world0 0 ''open'' \<and> \<not> prevents world0 0 ''close'' \<and> quiet 0 world0
   \<and> bar_has_body (dialogs world0 0)
   \<and> hasUpdated (dialogs world0 1) \<and> \<not> open (dialogs world0 1)
   \<and> \<not> prevents world0 1 ''open'' \<and> \<not> prevents world0 1 ''close'' \<and> quiet 1 world0
   \<and> bar_has_body (dialogs world0 1)
   \<and> owned world0 \<and> scrollLock world0 = 0
   \<and> (\<exists>w1 w2 w3 w4.
       run (open_sched 0 0 0) world0 = Some w1 \<and> scrollLock w1 = 1
     \<and> run (open_sched 1 (Suc 0) 0) w1 = Some w2 \<and> scrollLock w2 = 2
     \<and> run (close_sched 0 (Suc (Suc 0))) w2 = Some w3 \<and> scrollLock w3 = 1
     \<and> open (dialogs w3 1) \<and> locked w3
     \<and> run (close_sched 1 (Suc (Suc (Suc 0)))) w3 = Some w4 \<and> scrollLock w4 = 0
     \<and> \<not> locked w4)"
  using C7_scroll_lock_composes [of 0 1 world0 0 0 0 1]
  by (simp add: world0_def dialog0_def quiet_def owned_def bar_has_body_def)

text \<open>
  C8 (as stated, refuted): the flag is cleared while the open handler (task 0) is suspended
  after its own halt and before its own start (\<^verbatim>\<open>open\<close> has been dispatched). The close handler
  halts, finding nothing to cancel; then each handler starts its run, and the effects of the
  open run and those of the close run are running on the same nodes.
\<close>

theorem C8_counterexample:
  "map_option (emitted 0 \<circ> log) (run [SetOpen 0 True, Resume 0, SetOpen 0 False] world0)
     = Some [''open'']
   \<and> map_option (overlapping \<circ> animations)
       (run [SetOpen 0 True, Resume 0, SetOpen 0 False, Resume 1, Resume 0, Resume 1] world0)
     = Some True"
  by code_simp

text \<open>
  C8 (amended): a handler called after the first render that enters its body and is not
  vetoed (when it opens, the dialog has the body that its top app bar, if any, needs) cancels, without waiting for them (the step is possible whatever is running and none
  of them finishes), exactly the effects that are running on the overlay, the panel and the
  children, and starts no effect in that step; its own effects start in its next step. When
  that step follows at once, every effect then running on those nodes is its own.
\<close>

theorem C8_halt_then_start:
  assumes "at_body w i" "t_hasUpdated (tasks w ! i)" "t_dialog (tasks w ! i) = d"
    "\<not> prevents w d (if open (dialogs w d) then ''open'' else ''close'')"
    "open (dialogs w d) \<longrightarrow> bar_has_body (dialogs w d)"
    "cs = children (dialogs w d)"
  shows "\<exists>w1 w2. step (Resume i) w = Some w1
      \<and> list_all (\<lambda>a. target a \<notin> set (nodes d cs)) (animations w1)
      \<and> set (cancels (drop (length (log w)) (log w1))) =
           {a \<in> set (animations w). target a \<in> set (nodes d cs)}
      \<and> finished (drop (length (log w)) (log w1)) = []
      \<and> started (drop (length (log w)) (log w1)) = []
      \<and> step (Resume i) w1 = Some w2
      \<and> started (drop (length (log w1)) (log w2)) =
           (if open (dialogs w d) then open_effects i d (getDuration w ''medium4'') cs
            else close_effects i d (getDuration w ''short4'') cs)
      \<and> list_all (\<lambda>a. target a \<notin> set (nodes d cs) \<or> owner a = i) (animations w2)"
proof -
  have i: "i < length (tasks w)" using assms(1) by (simp add: at_body_def)
  define k where "k = (if open (dialogs w d) then AwaitStopOpen else AwaitStopClose)"
  have "\<exists>w1. step (Resume i) w = Some w1
      \<and> animations w1 = filter (\<lambda>a. target a \<notin> set (nodes d cs)) (animations w)
      \<and> set (cancels (drop (length (log w)) (log w1))) =
           {a \<in> set (animations w). target a \<in> set (nodes d cs)}
      \<and> finished (drop (length (log w)) (log w1)) = []
      \<and> started (drop (length (log w)) (log w1)) = []
      \<and> i < length (tasks w1) \<and> t_pc (tasks w1 ! i) = k \<and> t_dialog (tasks w1 ! i) = d
      \<and> t_hasUpdated (tasks w1 ! i) \<and> t_children (tasks w1 ! i) = cs
      \<and> getDuration w1 = getDuration w"
  proof (cases "open (dialogs w d)")
    case True
    then show ?thesis
      using assms i
      by (simp add: resume_open_request projections set_cancelled k_def)
  next
    case False
    then show ?thesis
      using assms i
      by (simp add: resume_close_request projections set_cancelled k_def)
  qed
  then obtain w1 where 1: "step (Resume i) w = Some w1"
      "animations w1 = filter (\<lambda>a. target a \<notin> set (nodes d cs)) (animations w)"
      "set (cancels (drop (length (log w)) (log w1))) =
           {a \<in> set (animations w). target a \<in> set (nodes d cs)}"
      "finished (drop (length (log w)) (log w1)) = []"
      "started (drop (length (log w)) (log w1)) = []"
    and t1: "i < length (tasks w1)" "t_pc (tasks w1 ! i) = k" "t_dialog (tasks w1 ! i) = d"
      "t_hasUpdated (tasks w1 ! i)" "t_children (tasks w1 ! i) = cs" "getDuration w1 = getDuration w"
    by blast
  have stopped: "list_all (\<lambda>a. target a \<notin> set (nodes d cs)) (animations w1)"
    by (simp add: 1(2) list_all_iff)
  have "\<exists>w2. step (Resume i) w1 = Some w2
      \<and> started (drop (length (log w1)) (log w2)) =
           (if open (dialogs w d) then open_effects i d (getDuration w ''medium4'') cs
            else close_effects i d (getDuration w ''short4'') cs)
      \<and> list_all (\<lambda>a. target a \<notin> set (nodes d cs) \<or> owner a = i) (animations w2)"
  proof (cases "open (dialogs w d)")
    case True
    then have "t_pc (tasks w1 ! i) = AwaitStopOpen" using t1(2) by (simp add: k_def)
    then show ?thesis
      using True t1 stopped
      by (simp add: resume_open_run projections open_duration_def)
         (auto simp: list_all_iff dest: target_open_effects)
  next
    case False
    then have "t_pc (tasks w1 ! i) = AwaitStopClose" using t1(2) by (simp add: k_def)
    then show ?thesis
      using False t1 stopped
      by (simp add: resume_close_run projections)
         (auto simp: list_all_iff dest: target_close_effects)
  qed
  then show ?thesis
    using 1 stopped by blast
qed


theorem C8_halt_then_start_witness:
  "at_body world_flip 1 \<and> t_hasUpdated (tasks world_flip ! 1) \<and> t_dialog (tasks world_flip ! 1) = 0
   \<and> \<not> prevents world_flip 0 (if open (dialogs world_flip 0) then ''open'' else ''close'')
   \<and> bar_has_body (dialogs world_flip 0)
   \<and> [Child 0, Child 1] = children (dialogs world_flip 0)
   \<and> \<not> settled 0 world_flip
   \<and> (\<exists>w1 w2. step (Resume 1) world_flip = Some w1
        \<and> list_all (\<lambda>a. target a \<notin> set (nodes 0 [Child 0, Child 1])) (animations w1)
        \<and> set (cancels (drop (length (log world_flip)) (log w1))) = set (animations world_flip)
        \<and> step (Resume 1) w1 = Some w2
        \<and> started (drop (length (log w1)) (log w2)) = close_effects 1 0 200 [Child 0, Child 1]
        \<and> list_all (\<lambda>a. target a \<notin> set (nodes 0 [Child 0, Child 1]) \<or> owner a = 1) (animations w2))"
proof -
  have h: "at_body world_flip 1" "t_hasUpdated (tasks world_flip ! 1)" "t_dialog (tasks world_flip ! 1) = 0"
    "\<not> prevents world_flip 0 (if open (dialogs world_flip 0) then ''open'' else ''close'')"
    "bar_has_body (dialogs world_flip 0)"
    "[Child 0, Child 1] = children (dialogs world_flip 0)"
    and g: "\<not> settled 0 world_flip" "\<not> open (dialogs world_flip 0)" "getDuration world_flip ''short4'' = 200"
      "list_all (\<lambda>a. target a \<in> set (nodes 0 [Child 0, Child 1])) (animations world_flip)"
    by code_simp+
  have s: "{a \<in> set (animations world_flip). target a \<in> set (nodes 0 [Child 0, Child 1])}
      = set (animations world_flip)"
    using g(4) by (auto simp: list_all_iff)
  have b: "open (dialogs world_flip 0) \<longrightarrow> bar_has_body (dialogs world_flip 0)"
    using h(5) by simp
  show ?thesis
    using C8_halt_then_start [OF h(1-4) b h(6)] h g(1,2,3) unfolding s
    by simp blast
qed

text \<open>
  C9: \<^verbatim>\<open>disconnectedCallback\<close> always decrements the counter; so when a dialog (with the body
  that its top app bar, if any, needs) that was opened, which incremented the counter once, is
  removed from the document while it is open, the counter is back at its value before the
  dialog was opened.
\<close>

theorem C9_disconnect_releases:
  assumes "hasUpdated (dialogs w d)" "\<not> open (dialogs w d)" "\<not> prevents w d ''open''"
    "bar_has_body (dialogs w d)" "quiet d w" "owned w" "i = length (tasks w)" "k = length (timers w)"
  shows "(\<exists>w1 w2. run (open_sched d i k) w = Some w1
       \<and> open (dialogs w1 d) \<and> scrollLock w1 = scrollLock w + 1
       \<and> step (Disconnect d) w1 = Some w2
       \<and> scrollLock w2 = scrollLock w \<and> log w2 = log w1 @ [UnlockScreen d])
     \<and> scrollLock (disconnectedCallback d v) = scrollLock v - 1"
proof -
  obtain w1 where 1: "run (open_sched d i k) w = Some w1" "scrollLock w1 = scrollLock w + 1"
    "open (dialogs w1 d)"
    using open_cycle_lock [OF assms] by blast
  then have "\<exists>w1 w2. run (open_sched d i k) w = Some w1
       \<and> open (dialogs w1 d) \<and> scrollLock w1 = scrollLock w + 1
       \<and> step (Disconnect d) w1 = Some w2
       \<and> scrollLock w2 = scrollLock w \<and> log w2 = log w1 @ [UnlockScreen d]"
    by (simp add: step_Disconnect)
  moreover have "scrollLock (disconnectedCallback d v) = scrollLock v - 1"
    by (simp add: disconnectedCallback_def unlockScreen_def logs_def)
  ultimately show ?thesis by simp
qed

theorem C9_disconnect_releases_witness:
  "hasUpdated (dialogs world0 0) \<and> \<not> open (dialogs world0 0) \<and> \<not> prevents world0 0 ''open''
   \<and> bar_has_body (dialogs world0 0) \<and> quiet 0 world0 \<and> owned world0
   \<and> (\<exists>w1 w2. run (open_sched 0 0 0) world0 = Some w1
       \<and> open (dialogs w1 0) \<and> scrollLock w1 = 1
       \<and> step (Disconnect 0) w1 = Some w2
       \<and> scrollLock w2 = 0 \<and> log w2 = log w1 @ [UnlockScreen 0])"
  using C9_disconnect_releases [of world0 0 0 0]
  by (simp add: world0_def dialog0_def quiet_def owned_def bar_has_body_def)

text \<open>
  C10 (as stated, refuted): after \<^verbatim>\<open>connectedCallback\<close> the type of the value always agrees
  with \<^verbatim>\<open>multiple\<close>. A single select whose value was set to an array keeps the array.
\<close>

theorem C10_counterexample:
  "\<not> agrees (multiple (connectedCallback \<lparr>multiple = False, val = Arr [''a''], defaultValue = Str []\<rparr>))
            (val (connectedCallback \<lparr>multiple = False, val = Arr [''a''], defaultValue = Str []\<rparr>))"
  by (simp add: connectedCallback_def agrees_def)

text \<open>
  C10 (amended): \<^verbatim>\<open>connectedCallback\<close> leaves \<^verbatim>\<open>multiple\<close> as it is; with \<^verbatim>\<open>multiple\<close> set, a
  string value becomes the empty array when it is empty and the one-element array of itself
  otherwise, and an array value is kept, so the value is an array; without \<^verbatim>\<open>multiple\<close> the
  value is left unchanged (a string stays a string); \<^verbatim>\<open>defaultValue\<close> becomes \<^verbatim>\<open>[]\<close> with
  \<^verbatim>\<open>multiple\<close> and the empty string without, so its type always agrees with \<^verbatim>\<open>multiple\<close>.
\<close>

theorem C10_connectedCallback:
  "multiple (connectedCallback s) = multiple s
   \<and> val (connectedCallback s) =
       (if multiple s
        then (case val s of Str v \<Rightarrow> (if v = [] then Arr [] else Arr [v]) | Arr vs \<Rightarrow> Arr vs)
        else val s)
   \<and> defaultValue (connectedCallback s) = (if multiple s then Arr [] else Str [])
   \<and> agrees (multiple (connectedCallback s)) (defaultValue (connectedCallback s))
   \<and> (multiple s \<or> isString (val s)
        \<longrightarrow> agrees (multiple (connectedCallback s)) (val (connectedCallback s)))"
  by (cases "val s") (simp_all add: connectedCallback_def agrees_def)

theorem C10_connectedCallback_witness:
  "(multiple \<lparr>multiple = True, val = Str ''a'', defaultValue = Str ''x''\<rparr>
      \<or> isString (val \<lparr>multiple = True, val = Str ''a'', defaultValue = Str ''x''\<rparr>))
   \<and> val (connectedCallback \<lparr>multiple = True, val = Str ''a'', defaultValue = Str ''x''\<rparr>) = Arr [''a'']
   \<and> agrees (multiple (connectedCallback \<lparr>multiple = True, val = Str ''a'', defaultValue = Str ''x''\<rparr>))
        (val (connectedCallback \<lparr>multiple = True, val = Str ''a'', defaultValue = Str ''x''\<rparr>))"
  using C10_connectedCallback [of "\<lparr>multiple = True, val = Str ''a'', defaultValue = Str ''x''\<rparr>"]
  by (simp add: agrees_def)

end
